theory Spec2Isabelle
  imports Main "HOL-Library.FSet"
begin

section \<open>The presence hub of LiveUser (main.go)\<close>

text \<open>
  The Go program keeps, per site key, a \<^verbatim>\<open>Site\<close> object with a counter and a map used as
  a set of client pointers; the \<^verbatim>\<open>Hub\<close> maps site keys to \<^verbatim>\<open>Site\<close> pointers. Clients and
  sites are heap objects that outlive their registry entry (a client keeps its \<^verbatim>\<open>site\<close>
  pointer after the hub has deleted the key), so the model has an explicit store: pointers
  are natural numbers, and two total functions give the object behind each pointer.

  Run-time panics of Go (send on a closed channel, close of a closed channel) are values:
  every operation that can panic returns \<open>panic + state\<close>, with \<open>Inl\<close> the panic. Nothing
  in main.go recovers, so a panic ends the process.
\<close>

subsection \<open>Data model\<close>

type_synonym client_ref = nat
type_synonym site_ref = nat

text \<open>
  \<^verbatim>\<open>type Message struct\<close>. The fields \<^verbatim>\<open>Count\<close> and \<^verbatim>\<open>Message\<close> are named \<open>MCount\<close> and
  \<open>MMessage\<close> here, since \<^verbatim>\<open>Site\<close> has a \<^verbatim>\<open>Count\<close> of its own.
\<close>

record Message =
  Type :: string
  SiteID :: string
  MCount :: int
  MMessage :: string
  Timestamp :: int

text \<open>
  \<^verbatim>\<open>send chan Message\<close>, made with capacity 16 in \<^verbatim>\<open>handleWebSocket\<close>: the buffered
  messages in FIFO order and whether the channel has been closed.
\<close>

record chan =
  buf :: "Message list"
  is_closed :: bool

definition chan_cap :: nat where
  "chan_cap = 16"

text \<open>
  \<^verbatim>\<open>type Site struct\<close>. \<^verbatim>\<open>Connections map[*Client]bool\<close> only ever stores \<^verbatim>\<open>true\<close>, so
  it is the finite set of its keys. \<^verbatim>\<open>Count\<close> is a Go \<^verbatim>\<open>int\<close> (64 bits on every platform
  the repository builds for); its wrap-around is written out in \<open>int_wrap\<close>.
\<close>

record Site =
  ID :: string
  Count :: int
  Connections :: "client_ref fset"

text \<open>
  \<^verbatim>\<open>type Client struct\<close>: of the connection only whether \<^verbatim>\<open>conn.Close()\<close> has been called
  is kept; the \<^verbatim>\<open>hub\<close> pointer is the one global hub.
\<close>

record Client =
  conn_closed :: bool
  site :: "site_ref option"
  send :: chan
  ip :: string

text \<open>The commands a reader sends on \<^verbatim>\<open>hub.register\<close> and \<^verbatim>\<open>hub.unregister\<close>.\<close>

datatype command = Register client_ref | Unregister client_ref

text \<open>
  The state: \<open>sites\<close> is \<^verbatim>\<open>Hub.sites\<close>; \<open>site_mem\<close> and \<open>client_mem\<close> are the store;
  pointers below \<open>next_site\<close> are the allocated sites. \<open>issued\<close> is a log of the commands
  sent on the hub's two channels (not a variable of the program: it lets a theorem say
  that no command was sent).
\<close>

record state =
  sites :: "string \<Rightarrow> site_ref option"
  site_mem :: "site_ref \<Rightarrow> Site"
  client_mem :: "client_ref \<Rightarrow> Client"
  next_site :: site_ref
  issued :: "command list"

datatype panic = SendOnClosedChannel | CloseOfClosedChannel

subsection \<open>Go primitives\<close>

text \<open>Arithmetic on a 64-bit \<^verbatim>\<open>int\<close>: the result modulo \<open>2^64\<close>, read as signed.\<close>

definition int_wrap :: "int \<Rightarrow> int" where
  "int_wrap x = (x + 2 ^ 63) mod 2 ^ 64 - 2 ^ 63"

text \<open>
  \<^verbatim>\<open>select { case ch <- m: default: }\<close>: a send on a closed channel panics; otherwise
  the message is buffered when there is room (\<open>Some\<close> the new channel), and the default
  branch is taken when the buffer is full (\<open>None\<close>).
\<close>

definition try_send :: "Message \<Rightarrow> chan \<Rightarrow> panic + chan option" where
  "try_send m ch =
     (if is_closed ch then Inl SendOnClosedChannel
      else if length (buf ch) < chan_cap then Inr (Some (ch\<lparr>buf := buf ch @ [m]\<rparr>))
      else Inr None)"

text \<open>\<^verbatim>\<open>close(ch)\<close>: closing a closed channel panics.\<close>

definition close_chan :: "chan \<Rightarrow> panic + chan" where
  "close_chan ch =
     (if is_closed ch then Inl CloseOfClosedChannel else Inr (ch\<lparr>is_closed := True\<rparr>))"

definition upd_site :: "site_ref \<Rightarrow> (Site \<Rightarrow> Site) \<Rightarrow> state \<Rightarrow> state" where
  "upd_site r f st = st\<lparr>site_mem := (site_mem st)(r := f (site_mem st r))\<rparr>"

definition upd_client :: "client_ref \<Rightarrow> (Client \<Rightarrow> Client) \<Rightarrow> state \<Rightarrow> state" where
  "upd_client c f st = st\<lparr>client_mem := (client_mem st)(c := f (client_mem st c))\<rparr>"

text \<open>A client has room when its outbound queue holds fewer than 16 messages.\<close>

definition has_room :: "state \<Rightarrow> client_ref \<Rightarrow> bool" where
  "has_room st c = (length (buf (send (client_mem st c))) < chan_cap)"

text \<open>No site counts fewer members than it has.\<close>

definition counted :: "state \<Rightarrow> bool" where
  "counted st = (\<forall>q. int (fcard (Connections (site_mem st q))) \<le> Count (site_mem st q))"

subsection \<open>Hub operations\<close>

text \<open>The \<^verbatim>\<open>Message\<close> literal at the head of \<^verbatim>\<open>broadcastToSite\<close>; \<open>now\<close> is
  \<^verbatim>\<open>time.Now().Unix()\<close>.\<close>

definition update_message :: "string \<Rightarrow> int \<Rightarrow> int \<Rightarrow> Message" where
  "update_message siteID count now =
     \<lparr>Type = ''update'', SiteID = siteID, MCount = count, MMessage = '''', Timestamp = now\<rparr>"

text \<open>
  The body of \<^verbatim>\<open>for client := range site.Connections\<close> in \<^verbatim>\<open>broadcastToSite\<close>, over the
  keys still to visit. The only entry the loop deletes is the one it is visiting, so the
  keys visited are those present when the loop starts.
\<close>

fun broadcast_loop :: "Message \<Rightarrow> site_ref \<Rightarrow> client_ref list \<Rightarrow> state \<Rightarrow> panic + state" where
  "broadcast_loop message r [] st = Inr st"
| "broadcast_loop message r (client # rest) st =
     (case try_send message (send (client_mem st client)) of
        Inl p \<Rightarrow> Inl p
      | Inr (Some ch) \<Rightarrow>
          broadcast_loop message r rest (upd_client client (\<lambda>x. x\<lparr>send := ch\<rparr>) st)
      | Inr None \<Rightarrow>
          (let st1 = upd_site r (\<lambda>s. s\<lparr>Connections := Connections s |-| {|client|}\<rparr>) st in
           case close_chan (send (client_mem st1 client)) of
             Inl p \<Rightarrow> Inl p
           | Inr ch \<Rightarrow>
               broadcast_loop message r rest (upd_client client (\<lambda>x. x\<lparr>send := ch\<rparr>) st1)))"

text \<open>
  \<^verbatim>\<open>func (h *Hub) broadcastToSite(siteID string, count int)\<close>. Go leaves the order of a
  range over a map open; the model visits the keys in ascending order, and
  the broadcast loop is shown below to give the same result in every order.
\<close>

definition broadcastToSite :: "int \<Rightarrow> string \<Rightarrow> int \<Rightarrow> state \<Rightarrow> panic + state" where
  "broadcastToSite now siteID count st =
     (let message = update_message siteID count now in
      case sites st siteID of
        None \<Rightarrow> Inr st
      | Some r \<Rightarrow>
          broadcast_loop message r (sorted_list_of_fset (Connections (site_mem st r))) st)"

text \<open>\<^verbatim>\<open>func (h *Hub) handleRegister(client *Client)\<close>.\<close>

definition handleRegister :: "int \<Rightarrow> client_ref \<Rightarrow> state \<Rightarrow> panic + state" where
  "handleRegister now client st =
     (case site (client_mem st client) of
        None \<Rightarrow> Inr st
      | Some r \<Rightarrow>
          (let st1 = upd_site r (\<lambda>s. s\<lparr>Connections := finsert client (Connections s)\<rparr>) st;
               st2 = upd_site r (\<lambda>s. s\<lparr>Count := int_wrap (Count s + 1)\<rparr>) st1;
               count = Count (site_mem st2 r)
           in broadcastToSite now (ID (site_mem st2 r)) count st2))"

text \<open>\<^verbatim>\<open>func (h *Hub) handleUnregister(client *Client)\<close>.\<close>

definition handleUnregister :: "int \<Rightarrow> client_ref \<Rightarrow> state \<Rightarrow> panic + state" where
  "handleUnregister now client st =
     (case site (client_mem st client) of
        None \<Rightarrow> Inr st
      | Some r \<Rightarrow>
          if client |\<in>| Connections (site_mem st r) then
            (let st1 = upd_site r (\<lambda>s. s\<lparr>Connections := Connections s |-| {|client|}\<rparr>) st in
             case close_chan (send (client_mem st1 client)) of
               Inl p \<Rightarrow> Inl p
             | Inr ch \<Rightarrow>
                 (let st2 = upd_client client (\<lambda>x. x\<lparr>send := ch\<rparr>) st1;
                      st3 = upd_site r (\<lambda>s. s\<lparr>Count := int_wrap (Count s - 1)\<rparr>) st2;
                      st4 = upd_site r (\<lambda>s. if Count s < 0 then s\<lparr>Count := 0\<rparr> else s) st3;
                      count = Count (site_mem st4 r);
                      connectionsLeft = fcard (Connections (site_mem st4 r))
                  in if connectionsLeft = 0
                     then Inr (st4\<lparr>sites := (sites st4)(ID (site_mem st4 r) := None)\<rparr>)
                     else broadcastToSite now (ID (site_mem st4 r)) count st4))
          else Inr st)"

text \<open>
  \<^verbatim>\<open>func (h *Hub) getSite(siteID string) *Site\<close>: the pointer returned and the new state.
  \<^verbatim>\<open>&Site{...}\<close> allocates the next free pointer.
\<close>

definition getSite :: "string \<Rightarrow> state \<Rightarrow> site_ref \<times> state" where
  "getSite siteID st =
     (case sites st siteID of
        Some r \<Rightarrow> (r, st)
      | None \<Rightarrow>
          (let r = next_site st in
           (r, st\<lparr>sites := (sites st)(siteID \<mapsto> r),
                  site_mem := (site_mem st)(r := \<lparr>ID = siteID, Count = 0, Connections = {||}\<rparr>),
                  next_site := Suc r\<rparr>)))"

subsection \<open>The reader task\<close>

text \<open>
  \<^verbatim>\<open>c.hub.register <- c\<close> and \<^verbatim>\<open>c.hub.unregister <- c\<close>. Both channels are unbuffered:
  the send completes when \<^verbatim>\<open>Hub.Run\<close> receives the client, and \<^verbatim>\<open>Run\<close> then calls the
  handler. The model logs the command and runs the handler at once, which is the schedule
  where the hub finishes a command before the reader goes on.
\<close>

definition hub_send :: "int \<Rightarrow> command \<Rightarrow> state \<Rightarrow> panic + state" where
  "hub_send now cmd st =
     (let st1 = st\<lparr>issued := issued st @ [cmd]\<rparr> in
      case cmd of
        Register client \<Rightarrow> handleRegister now client st1
      | Unregister client \<Rightarrow> handleUnregister now client st1)"

text \<open>\<^verbatim>\<open>c.site != nil && c.site.ID != siteID\<close> and \<^verbatim>\<open>c.site == nil || c.site.ID != siteID\<close>.\<close>

definition holds_other_site :: "client_ref \<Rightarrow> string \<Rightarrow> state \<Rightarrow> bool" where
  "holds_other_site c siteID st =
     (case site (client_mem st c) of
        None \<Rightarrow> False
      | Some r \<Rightarrow> ID (site_mem st r) \<noteq> siteID)"

definition must_join :: "client_ref \<Rightarrow> string \<Rightarrow> state \<Rightarrow> bool" where
  "must_join c siteID st =
     (case site (client_mem st c) of
        None \<Rightarrow> True
      | Some r \<Rightarrow> ID (site_mem st r) \<noteq> siteID)"

text \<open>
  One pass of the \<^verbatim>\<open>for\<close> loop of \<^verbatim>\<open>readPump\<close> after \<^verbatim>\<open>ReadMessage\<close> has returned the
  bytes \<open>msgData\<close>. \<open>TrimSpace\<close> stands for \<^verbatim>\<open>strings.TrimSpace\<close> and \<open>Unmarshal\<close> for
  \<^verbatim>\<open>json.Unmarshal\<close> into a zero \<^verbatim>\<open>Message\<close> (\<open>None\<close> when it returns an error); both
  belong to Go's library and are parameters. \<open>tu\<close> and \<open>tr\<close> are the clock readings of
  the broadcasts of the detach and of the attach. The result is the state with which
  the loop goes on.
\<close>

definition readPump_frame ::
  "(string \<Rightarrow> string) \<Rightarrow> (string \<Rightarrow> Message option) \<Rightarrow> int \<Rightarrow> int \<Rightarrow>
   client_ref \<Rightarrow> string \<Rightarrow> state \<Rightarrow> panic + state" where
  "readPump_frame TrimSpace Unmarshal tu tr c msgData st =
     (case Unmarshal msgData of
        None \<Rightarrow> Inr st
      | Some msg \<Rightarrow>
          if Type msg = ''join'' \<and> SiteID msg \<noteq> [] then
            (let siteID = TrimSpace (SiteID msg) in
             case (if holds_other_site c siteID st
                   then hub_send tu (Unregister c) st else Inr st) of
               Inl p \<Rightarrow> Inl p
             | Inr st1 \<Rightarrow>
                 if must_join c siteID st1 then
                   (let (r, st2) = getSite siteID st1;
                        st3 = upd_client c (\<lambda>x. x\<lparr>site := Some r\<rparr>) st2
                    in hub_send tr (Register c) st3)
                 else Inr st1)
          else Inr st)"

text \<open>
  The hub and the reader are two goroutines, and \<^verbatim>\<open>handleUnregister\<close> reads \<^verbatim>\<open>client.site\<close>
  while the reader, once its send has been received, goes on to write \<^verbatim>\<open>c.site\<close>. The read
  falls before the write in \<open>readPump_frame\<close>. In \<open>readPump_frame_late\<close> it falls after it:
  \<^verbatim>\<open>Run\<close> has received the client, and calls the handler when the reader has stored the
  new site and waits to send on \<^verbatim>\<open>hub.register\<close>.
\<close>

definition readPump_frame_late ::
  "(string \<Rightarrow> string) \<Rightarrow> (string \<Rightarrow> Message option) \<Rightarrow> int \<Rightarrow> int \<Rightarrow>
   client_ref \<Rightarrow> string \<Rightarrow> state \<Rightarrow> panic + state" where
  "readPump_frame_late TrimSpace Unmarshal tu tr c msgData st =
     (case Unmarshal msgData of
        None \<Rightarrow> Inr st
      | Some msg \<Rightarrow>
          if Type msg = ''join'' \<and> SiteID msg \<noteq> [] then
            (let siteID = TrimSpace (SiteID msg);
                 detach = holds_other_site c siteID st;
                 st1 = (if detach then st\<lparr>issued := issued st @ [Unregister c]\<rparr> else st)
             in if must_join c siteID st1 then
                  (let (r, st2) = getSite siteID st1;
                       st3 = upd_client c (\<lambda>x. x\<lparr>site := Some r\<rparr>) st2
                   in case (if detach then handleUnregister tu c st3 else Inr st3) of
                        Inl p \<Rightarrow> Inl p
                      | Inr st4 \<Rightarrow> hub_send tr (Register c) st4)
                else Inr st1)
          else Inr st)"

text \<open>
  What \<^verbatim>\<open>c.conn.ReadMessage()\<close> returns: an error (also for a frame over the read limit
  and for a closed connection) or the bytes of a frame.
\<close>

datatype inbound = ReadError | Frame string

text \<open>
  \<^verbatim>\<open>func (c *Client) readPump()\<close> over the inbound events still to come, each with the
  clock readings of the broadcasts it may trigger. A read error leaves the loop and runs
  the deferred function: a last \<^verbatim>\<open>unregister\<close>, then \<^verbatim>\<open>c.conn.Close()\<close>. With no event
  left the reader is waiting in \<^verbatim>\<open>ReadMessage\<close>.
\<close>

fun readPump ::
  "(string \<Rightarrow> string) \<Rightarrow> (string \<Rightarrow> Message option) \<Rightarrow> client_ref \<Rightarrow>
   (inbound \<times> int \<times> int) list \<Rightarrow> state \<Rightarrow> panic + state" where
  "readPump TrimSpace Unmarshal c [] st = Inr st"
| "readPump TrimSpace Unmarshal c ((ReadError, tu, tr) # rest) st =
     (case hub_send tu (Unregister c) st of
        Inl p \<Rightarrow> Inl p
      | Inr st1 \<Rightarrow> Inr (upd_client c (\<lambda>x. x\<lparr>conn_closed := True\<rparr>) st1))"
| "readPump TrimSpace Unmarshal c ((Frame msgData, tu, tr) # rest) st =
     (case readPump_frame TrimSpace Unmarshal tu tr c msgData st of
        Inl p \<Rightarrow> Inl p
      | Inr st1 \<Rightarrow> readPump TrimSpace Unmarshal c rest st1)"

subsection \<open>The wire format\<close>

text \<open>
  \<^verbatim>\<open>conn.WriteJSON(message)\<close> encodes the struct with \<^verbatim>\<open>encoding/json\<close>, which follows the
  struct tags of \<^verbatim>\<open>Message\<close>: the members appear in field order under the tag's name, and
  a field tagged \<^verbatim>\<open>omitempty\<close> (all but \<^verbatim>\<open>type\<close>) is left out when it holds its zero value.
  The frame is kept as the list of the object's members.
\<close>

datatype json = JString string | JNumber int

definition marshal_Message :: "Message \<Rightarrow> (string \<times> json) list" where
  "marshal_Message m =
     [(''type'', JString (Type m))]
     @ (if SiteID m = [] then [] else [(''siteId'', JString (SiteID m))])
     @ (if MCount m = 0 then [] else [(''count'', JNumber (MCount m))])
     @ (if MMessage m = [] then [] else [(''message'', JString (MMessage m))])
     @ (if Timestamp m = 0 then [] else [(''timestamp'', JNumber (Timestamp m))])"

subsection \<open>Example states\<close>

text \<open>\<^verbatim>\<open>&Client{conn: conn, hub: hub, send: make(chan Message, 16), ip: clientIP}\<close>.\<close>

definition new_client :: Client where
  "new_client = \<lparr>conn_closed = False, site = None, send = \<lparr>buf = [], is_closed = False\<rparr>, ip = []\<rparr>"

text \<open>A client that holds site \<open>r\<close>, with \<open>q\<close> waiting in its outbound queue.\<close>

definition client_at :: "site_ref \<Rightarrow> Message list \<Rightarrow> Client" where
  "client_at r q = \<lparr>conn_closed = False, site = Some r, send = \<lparr>buf = q, is_closed = False\<rparr>, ip = []\<rparr>"

definition no_site :: Site where
  "no_site = \<lparr>ID = [], Count = 0, Connections = {||}\<rparr>"

text \<open>
  Site \<^verbatim>\<open>blog\<close> with the members 1, 2 and 3. The writer of client 1 is stalled: 16 updates
  wait in its queue. Client 4 has sent its join and holds the site, and its
  \<^verbatim>\<open>register\<close> has not been handled yet.
\<close>

definition blog_state :: state where
  "blog_state =
     \<lparr>sites = [''blog'' \<mapsto> 0],
      site_mem = (\<lambda>_. no_site)(0 := \<lparr>ID = ''blog'', Count = 3, Connections = {|1, 2, 3|}\<rparr>),
      client_mem = (\<lambda>_. new_client)
        (1 := client_at 0 (replicate 16 (update_message ''blog'' 3 0)),
         2 := client_at 0 [], 3 := client_at 0 [], 4 := client_at 0 []),
      next_site = 1,
      issued = [Register 1, Register 2, Register 3]\<rparr>"

text \<open>Site \<^verbatim>\<open>blog\<close> with the members 1 (queue full) and 2; client 3 is about to attach.\<close>

definition pair_state :: state where
  "pair_state =
     \<lparr>sites = [''blog'' \<mapsto> 0],
      site_mem = (\<lambda>_. no_site)(0 := \<lparr>ID = ''blog'', Count = 2, Connections = {|1, 2|}\<rparr>),
      client_mem = (\<lambda>_. new_client)
        (1 := client_at 0 (replicate 16 (update_message ''blog'' 2 0)),
         2 := client_at 0 [], 3 := client_at 0 []),
      next_site = 1,
      issued = [Register 1, Register 2]\<rparr>"

text \<open>Site \<^verbatim>\<open>A\<close> with client 1 as its only member, its queue empty; client 2 is new.\<close>

definition solo_state :: state where
  "solo_state =
     \<lparr>sites = [''A'' \<mapsto> 0],
      site_mem = (\<lambda>_. no_site)(0 := \<lparr>ID = ''A'', Count = 1, Connections = {|1|}\<rparr>),
      client_mem = (\<lambda>_. new_client)(1 := client_at 0 []),
      next_site = 1,
      issued = [Register 1]\<rparr>"

text \<open>
  Client 2 has looked up site \<^verbatim>\<open>A\<close> with \<^verbatim>\<open>getSite\<close> and holds it; before its
  \<^verbatim>\<open>register\<close> is handled the last member of the site has left, so the hub has deleted
  the key and the site is empty.
\<close>

definition orphan_state :: state where
  "orphan_state =
     \<lparr>sites = Map.empty,
      site_mem = (\<lambda>_. no_site)(0 := \<lparr>ID = ''A'', Count = 0, Connections = {||}\<rparr>),
      client_mem = (\<lambda>_. new_client)(2 := client_at 0 []),
      next_site = 1,
      issued = [Register 1, Unregister 1]\<rparr>"

text \<open>
  \<^verbatim>\<open>strings.TrimSpace\<close> on ASCII text (Go also trims the Unicode spaces U+0085 and
  U+00A0 and beyond, which ASCII text does not have), and a decoder for the frames of the
  examples.
\<close>

definition is_space :: "char \<Rightarrow> bool" where
  "is_space ch = (ch \<in> set [CHR '' '', CHR 0x09, CHR 0x0A, CHR 0x0B, CHR 0x0C, CHR 0x0D])"

definition trim_ascii :: "string \<Rightarrow> string" where
  "trim_ascii s = rev (dropWhile is_space (rev (dropWhile is_space s)))"

definition join_message :: "string \<Rightarrow> Message" where
  "join_message k = \<lparr>Type = ''join'', SiteID = k, MCount = 0, MMessage = [], Timestamp = 0\<rparr>"

definition example_Unmarshal :: "string \<Rightarrow> Message option" where
  \<open>example_Unmarshal d =
     (if d = ''{"type":"join","siteId":"B"}'' then Some (join_message ''B'')
      else if d = ''{"type":"join","siteId":" A "}'' then Some (join_message '' A '')
      else if d = ''{"type":"ping"}''
        then Some \<lparr>Type = ''ping'', SiteID = [], MCount = 0, MMessage = [], Timestamp = 0\<rparr>
      else None)\<close>

section \<open>The broadcast loop\<close>

lemma broadcast_loop_frame:
  "broadcast_loop m r cs st = Inr st' \<Longrightarrow>
     sites st' = sites st \<and> next_site st' = next_site st \<and> issued st' = issued st"
  by (induction cs arbitrary: st)
     (auto simp: try_send_def close_chan_def upd_client_def upd_site_def Let_def
           split: if_splits)

lemma broadcast_loop_site_fields:
  "broadcast_loop m r cs st = Inr st' \<Longrightarrow>
     Count (site_mem st' q) = Count (site_mem st q) \<and> ID (site_mem st' q) = ID (site_mem st q)"
  by (induction cs arbitrary: st)
     (auto simp: try_send_def close_chan_def upd_client_def upd_site_def Let_def
           split: if_splits)

lemma broadcast_loop_other_sites:
  "broadcast_loop m r cs st = Inr st' \<Longrightarrow> q \<noteq> r \<Longrightarrow> site_mem st' q = site_mem st q"
  by (induction cs arbitrary: st)
     (auto simp: try_send_def close_chan_def upd_client_def upd_site_def Let_def
           split: if_splits)

lemma broadcast_loop_client_fields:
  "broadcast_loop m r cs st = Inr st' \<Longrightarrow>
     site (client_mem st' c) = site (client_mem st c) \<and>
     conn_closed (client_mem st' c) = conn_closed (client_mem st c) \<and>
     ip (client_mem st' c) = ip (client_mem st c)"
  by (induction cs arbitrary: st)
     (auto simp: try_send_def close_chan_def upd_client_def upd_site_def Let_def
           split: if_splits)

lemma broadcast_loop_untouched:
  "broadcast_loop m r cs st = Inr st' \<Longrightarrow> c \<notin> set cs \<Longrightarrow> client_mem st' c = client_mem st c"
  by (induction cs arbitrary: st)
     (auto simp: try_send_def close_chan_def upd_client_def upd_site_def Let_def
           split: if_splits)

lemma broadcast_loop_send:
  "broadcast_loop m r cs st = Inr st' \<Longrightarrow> distinct cs \<Longrightarrow> c \<in> set cs \<Longrightarrow>
     send (client_mem st' c) =
       (if has_room st c then (send (client_mem st c))\<lparr>buf := buf (send (client_mem st c)) @ [m]\<rparr>
        else (send (client_mem st c))\<lparr>is_closed := True\<rparr>)"
proof (induction cs arbitrary: st)
  case Nil
  then show ?case by simp
next
  case (Cons a cs)
  show ?case
  proof (cases "c = a")
    case True
    with Cons.prems have "a \<notin> set cs" by simp
    with Cons.prems True show ?thesis
      by (auto simp: try_send_def close_chan_def upd_client_def upd_site_def Let_def has_room_def
            split: if_splits dest!: broadcast_loop_untouched[where c=a])
  next
    case False
    with Cons.prems have "c \<in> set cs" "distinct cs" by auto
    with Cons.prems Cons.IH False show ?thesis
      by (auto simp: try_send_def close_chan_def upd_client_def upd_site_def Let_def has_room_def
            split: if_splits)
  qed
qed

lemma broadcast_loop_Cons_room:
  "\<not> is_closed (send (client_mem st a)) \<Longrightarrow> has_room st a \<Longrightarrow>
     broadcast_loop m r (a # cs) st =
       broadcast_loop m r cs
         (upd_client a (\<lambda>x. x\<lparr>send := (send (client_mem st a))\<lparr>buf := buf (send (client_mem st a)) @ [m]\<rparr>\<rparr>) st)"
  by (simp add: try_send_def has_room_def)

lemma broadcast_loop_Cons_full:
  "\<not> is_closed (send (client_mem st a)) \<Longrightarrow> \<not> has_room st a \<Longrightarrow>
     broadcast_loop m r (a # cs) st =
       broadcast_loop m r cs
         (upd_client a (\<lambda>x. x\<lparr>send := (send (client_mem st a))\<lparr>is_closed := True\<rparr>\<rparr>)
           (upd_site r (\<lambda>s. s\<lparr>Connections := Connections s |-| {|a|}\<rparr>) st))"
  by (simp add: try_send_def close_chan_def has_room_def upd_site_def upd_client_def)

lemma broadcast_loop_Cons_closed:
  "is_closed (send (client_mem st a)) \<Longrightarrow> broadcast_loop m r (a # cs) st = Inl SendOnClosedChannel"
  by (simp add: try_send_def)

declare broadcast_loop.simps(2) [simp del]

lemma client_mem_upd_client [simp]:
  "client_mem (upd_client a f st) c = (if c = a then f (client_mem st a) else client_mem st c)"
  by (simp add: upd_client_def)

lemma client_mem_upd_site [simp]: "client_mem (upd_site r f st) = client_mem st"
  by (simp add: upd_site_def)

lemma site_mem_upd_site [simp]:
  "site_mem (upd_site r f st) q = (if q = r then f (site_mem st r) else site_mem st q)"
  by (simp add: upd_site_def)

lemma site_mem_upd_client [simp]: "site_mem (upd_client a f st) = site_mem st"
  by (simp add: upd_client_def)

lemma has_room_upd_other [simp]:
  "c \<noteq> a \<Longrightarrow> has_room (upd_client a f st) c = has_room st c"
  by (simp add: has_room_def)

lemma has_room_upd_site [simp]: "has_room (upd_site r f st) c = has_room st c"
  by (simp add: has_room_def)

lemma ffilter_full_Cons:
  "ffilter (\<lambda>c. \<not> has_room st c) (finsert a A) =
     (if has_room st a then ffilter (\<lambda>c. \<not> has_room st c) A
      else finsert a (ffilter (\<lambda>c. \<not> has_room st c) A))"
  by (rule fset_eqI) auto

lemma ffilter_full_upd:
  "a \<notin> set cs \<Longrightarrow>
     ffilter (\<lambda>c. \<not> has_room (upd_client a f st) c) (fset_of_list cs) =
     ffilter (\<lambda>c. \<not> has_room st c) (fset_of_list cs)"
  by (rule fset_eqI) (auto simp: fset_of_list.rep_eq has_room_def)

lemma fminus_fminus_finsert: "A |-| {|a|} |-| B = A |-| finsert a B"
  by (rule fset_eqI) auto

lemma broadcast_loop_Connections:
  "broadcast_loop m r cs st = Inr st' \<Longrightarrow> distinct cs \<Longrightarrow>
     Connections (site_mem st' r) =
       Connections (site_mem st r) |-| ffilter (\<lambda>c. \<not> has_room st c) (fset_of_list cs)"
proof (induction cs arbitrary: st)
  case Nil
  then show ?case by auto
next
  case (Cons a cs)
  from Cons.prems have open_a: "\<not> is_closed (send (client_mem st a))"
    by (auto simp: broadcast_loop_Cons_closed)
  from Cons.prems have a: "a \<notin> set cs" and d: "distinct cs" by auto
  show ?case
  proof (cases "has_room st a")
    case True
    with Cons.prems open_a
    have "broadcast_loop m r cs
         (upd_client a (\<lambda>x. x\<lparr>send := (send (client_mem st a))\<lparr>buf := buf (send (client_mem st a)) @ [m]\<rparr>\<rparr>) st) = Inr st'"
      by (simp add: broadcast_loop_Cons_room)
    from Cons.IH[OF this d] True a show ?thesis
      by (simp add: ffilter_full_Cons ffilter_full_upd)
  next
    case False
    with Cons.prems open_a
    have "broadcast_loop m r cs
         (upd_client a (\<lambda>x. x\<lparr>send := (send (client_mem st a))\<lparr>is_closed := True\<rparr>\<rparr>)
           (upd_site r (\<lambda>s. s\<lparr>Connections := Connections s |-| {|a|}\<rparr>) st)) = Inr st'"
      by (simp add: broadcast_loop_Cons_full)
    from Cons.IH[OF this d] False a show ?thesis
      by (simp add: ffilter_full_Cons ffilter_full_upd fminus_fminus_finsert)
  qed
qed

lemma broadcast_loop_returns:
  "distinct cs \<Longrightarrow> \<forall>c\<in>set cs. \<not> is_closed (send (client_mem st c)) \<Longrightarrow>
     \<exists>st'. broadcast_loop m r cs st = Inr st'"
proof (induction cs arbitrary: st)
  case Nil
  then show ?case by simp
next
  case (Cons a cs)
  from Cons.prems have a: "a \<notin> set cs" and d: "distinct cs"
    and open_a: "\<not> is_closed (send (client_mem st a))" by auto
  show ?case
  proof (cases "has_room st a")
    case True
    have "\<exists>st'. broadcast_loop m r cs
         (upd_client a (\<lambda>x. x\<lparr>send := (send (client_mem st a))\<lparr>buf := buf (send (client_mem st a)) @ [m]\<rparr>\<rparr>) st) = Inr st'"
      using Cons.prems a by (intro Cons.IH[OF d]) auto
    with True open_a show ?thesis by (simp add: broadcast_loop_Cons_room)
  next
    case False
    have "\<exists>st'. broadcast_loop m r cs
         (upd_client a (\<lambda>x. x\<lparr>send := (send (client_mem st a))\<lparr>is_closed := True\<rparr>\<rparr>)
           (upd_site r (\<lambda>s. s\<lparr>Connections := Connections s |-| {|a|}\<rparr>) st)) = Inr st'"
      using Cons.prems a by (intro Cons.IH[OF d]) auto
    with False open_a show ?thesis by (simp add: broadcast_loop_Cons_full)
  qed
qed

lemma broadcast_loop_panics:
  "distinct cs \<Longrightarrow> \<exists>c\<in>set cs. is_closed (send (client_mem st c)) \<Longrightarrow>
     broadcast_loop m r cs st = Inl SendOnClosedChannel"
proof (induction cs arbitrary: st)
  case Nil
  then show ?case by simp
next
  case (Cons a cs)
  from Cons.prems have a: "a \<notin> set cs" and d: "distinct cs" by auto
  show ?case
  proof (cases "is_closed (send (client_mem st a))")
    case True
    then show ?thesis by (simp add: broadcast_loop_Cons_closed)
  next
    case open_a: False
    with Cons.prems obtain c where c: "c \<in> set cs" "is_closed (send (client_mem st c))"
      by auto
    with a have ca: "c \<noteq> a" by auto
    show ?thesis
    proof (cases "has_room st a")
      case True
      have "broadcast_loop m r cs
         (upd_client a (\<lambda>x. x\<lparr>send := (send (client_mem st a))\<lparr>buf := buf (send (client_mem st a)) @ [m]\<rparr>\<rparr>) st) = Inl SendOnClosedChannel"
        using c ca by (intro Cons.IH[OF d]) auto
      with True open_a show ?thesis by (simp add: broadcast_loop_Cons_room)
    next
      case False
      have "broadcast_loop m r cs
         (upd_client a (\<lambda>x. x\<lparr>send := (send (client_mem st a))\<lparr>is_closed := True\<rparr>\<rparr>)
           (upd_site r (\<lambda>s. s\<lparr>Connections := Connections s |-| {|a|}\<rparr>) st)) = Inl SendOnClosedChannel"
        using c ca by (intro Cons.IH[OF d]) auto
      with False open_a show ?thesis by (simp add: broadcast_loop_Cons_full)
    qed
  qed
qed

section \<open>Evaluation and unfolding lemmas\<close>

lemma sorted_list_of_fset_empty: "sorted_list_of_fset ({||} :: nat fset) = []"
  by (simp add: sorted_list_of_fset.rep_eq)

lemma sorted_list_of_fset_finsert:
  "sorted_list_of_fset (finsert x A) = insort x (sorted_list_of_fset (A |-| {|x|}))"
  by (simp add: sorted_list_of_fset.rep_eq sorted_list_of_set_insert_remove)

lemma distinct_sorted_list_of_fset: "distinct (sorted_list_of_fset A)"
  by (simp add: sorted_list_of_fset.rep_eq)

lemmas run_simps =
  broadcastToSite_def handleRegister_def handleUnregister_def getSite_def hub_send_def
  readPump_frame_def holds_other_site_def must_join_def
  broadcast_loop.simps(2) try_send_def close_chan_def chan_cap_def upd_site_def upd_client_def
  update_message_def int_wrap_def Let_def has_room_def
  sorted_list_of_fset_empty sorted_list_of_fset_finsert fcard_finsert_if finsert_fminus_if
  new_client_def client_at_def no_site_def

lemma int_wrap_id: "- (2 ^ 63) \<le> x \<Longrightarrow> x < 2 ^ 63 \<Longrightarrow> int_wrap x = x"
  by (simp add: int_wrap_def)

lemma has_room_upd_site_fun [simp]: "has_room (upd_site r f st) = has_room st"
  by (rule ext) simp

lemma fminus_ffilter_not: "A |-| ffilter (\<lambda>x. \<not> P x) A = ffilter P A"
  by (rule fset_eqI) auto

lemma broadcast_loop_Connections_subset:
  "broadcast_loop m r cs st = Inr st' \<Longrightarrow>
     Connections (site_mem st' q) |\<subseteq>| Connections (site_mem st q)"
proof (induction cs arbitrary: st)
  case Nil
  then show ?case by simp
next
  case (Cons a cs)
  from Cons.prems have open_a: "\<not> is_closed (send (client_mem st a))"
    by (auto simp: broadcast_loop_Cons_closed)
  show ?case
  proof (cases "has_room st a")
    case True
    with Cons.prems open_a Cons.IH show ?thesis
      by (fastforce simp: broadcast_loop_Cons_room)
  next
    case False
    with Cons.prems open_a
    have "broadcast_loop m r cs
         (upd_client a (\<lambda>x. x\<lparr>send := (send (client_mem st a))\<lparr>is_closed := True\<rparr>\<rparr>)
           (upd_site r (\<lambda>s. s\<lparr>Connections := Connections s |-| {|a|}\<rparr>) st)) = Inr st'"
      by (simp add: broadcast_loop_Cons_full)
    from Cons.IH[OF this] show ?thesis
      by (auto split: if_splits)
  qed
qed

lemma broadcastToSite_client_fields:
  "broadcastToSite now k n st = Inr st' \<Longrightarrow>
     site (client_mem st' c) = site (client_mem st c) \<and>
     conn_closed (client_mem st' c) = conn_closed (client_mem st c) \<and>
     ip (client_mem st' c) = ip (client_mem st c)"
  by (auto simp: broadcastToSite_def Let_def split: option.splits
           dest: broadcast_loop_client_fields)

lemma broadcastToSite_Connections_subset:
  "broadcastToSite now k n st = Inr st' \<Longrightarrow>
     Connections (site_mem st' q) |\<subseteq>| Connections (site_mem st q)"
  by (auto simp: broadcastToSite_def Let_def split: option.splits
           dest: broadcast_loop_Connections_subset[where q=q])

text \<open>
  The steps of \<^verbatim>\<open>handleRegister\<close> and of \<^verbatim>\<open>handleUnregister\<close> under the site's lock, as one
  state, and what the handler does with it.
\<close>

lemma handleRegister_unfold:
  assumes "site (client_mem st c) = Some r"
  shows "\<exists>st2. client_mem st2 = client_mem st \<and>
           site_mem st2 = (site_mem st)
             (r := (site_mem st r)\<lparr>Connections := finsert c (Connections (site_mem st r)),
                     Count := int_wrap (Count (site_mem st r) + 1)\<rparr>) \<and>
           sites st2 = sites st \<and> next_site st2 = next_site st \<and> issued st2 = issued st \<and>
           handleRegister now c st =
             broadcastToSite now (ID (site_mem st r)) (int_wrap (Count (site_mem st r) + 1)) st2"
proof -
  define st2 where "st2 =
    upd_site r (\<lambda>s. s\<lparr>Count := int_wrap (Count s + 1)\<rparr>)
      (upd_site r (\<lambda>s. s\<lparr>Connections := finsert c (Connections s)\<rparr>) st)"
  have "client_mem st2 = client_mem st" by (simp add: st2_def)
  moreover have "site_mem st2 = (site_mem st)
             (r := (site_mem st r)\<lparr>Connections := finsert c (Connections (site_mem st r)),
                     Count := int_wrap (Count (site_mem st r) + 1)\<rparr>)"
    by (rule ext) (simp add: st2_def)
  moreover have "sites st2 = sites st \<and> next_site st2 = next_site st \<and> issued st2 = issued st"
    by (simp add: st2_def upd_site_def)
  moreover have "handleRegister now c st =
             broadcastToSite now (ID (site_mem st r)) (int_wrap (Count (site_mem st r) + 1)) st2"
    using assms by (simp add: handleRegister_def Let_def st2_def)
  ultimately show ?thesis by blast
qed

lemma handleUnregister_unfold:
  assumes s: "site (client_mem st c) = Some r" and mem: "c |\<in>| Connections (site_mem st r)"
    and op: "\<not> is_closed (send (client_mem st c))"
  shows "\<exists>st4. client_mem st4 = (client_mem st)
             (c := (client_mem st c)\<lparr>send := (send (client_mem st c))\<lparr>is_closed := True\<rparr>\<rparr>) \<and>
           site_mem st4 = (site_mem st)
             (r := (site_mem st r)\<lparr>Connections := Connections (site_mem st r) |-| {|c|},
                     Count := (if int_wrap (Count (site_mem st r) - 1) < 0 then 0
                               else int_wrap (Count (site_mem st r) - 1))\<rparr>) \<and>
           sites st4 = sites st \<and> next_site st4 = next_site st \<and> issued st4 = issued st \<and>
           handleUnregister now c st =
             (if fcard (Connections (site_mem st4 r)) = 0
              then Inr (st4\<lparr>sites := (sites st4)(ID (site_mem st4 r) := None)\<rparr>)
              else broadcastToSite now (ID (site_mem st4 r)) (Count (site_mem st4 r)) st4)"
proof -
  define st3 where "st3 =
      upd_site r (\<lambda>s. s\<lparr>Count := int_wrap (Count s - 1)\<rparr>)
        (upd_client c (\<lambda>x. x\<lparr>send := (send (client_mem st c))\<lparr>is_closed := True\<rparr>\<rparr>)
          (upd_site r (\<lambda>s. s\<lparr>Connections := Connections s |-| {|c|}\<rparr>) st))"
  define st4 where "st4 = upd_site r (\<lambda>s. if Count s < 0 then s\<lparr>Count := 0\<rparr> else s) st3"
  have "client_mem st4 = (client_mem st)
             (c := (client_mem st c)\<lparr>send := (send (client_mem st c))\<lparr>is_closed := True\<rparr>\<rparr>)"
    by (simp add: st4_def st3_def upd_site_def upd_client_def)
  moreover have "site_mem st4 = (site_mem st)
             (r := (site_mem st r)\<lparr>Connections := Connections (site_mem st r) |-| {|c|},
                     Count := (if int_wrap (Count (site_mem st r) - 1) < 0 then 0
                               else int_wrap (Count (site_mem st r) - 1))\<rparr>)"
    by (rule ext) (simp add: st4_def st3_def upd_site_def upd_client_def)
  moreover have "sites st4 = sites st \<and> next_site st4 = next_site st \<and> issued st4 = issued st"
    by (simp add: st4_def st3_def upd_site_def upd_client_def)
  moreover have "handleUnregister now c st =
          (if fcard (Connections (site_mem st4 r)) = 0
           then Inr (st4\<lparr>sites := (sites st4)(ID (site_mem st4 r) := None)\<rparr>)
           else broadcastToSite now (ID (site_mem st4 r)) (Count (site_mem st4 r)) st4)"
    using s mem op
    by (simp add: handleUnregister_def close_chan_def Let_def st4_def st3_def)
  ultimately show ?thesis by blast
qed

lemma handleUnregister_member_open:
  "handleUnregister now c st = Inr st' \<Longrightarrow> site (client_mem st c) = Some r \<Longrightarrow>
     c |\<in>| Connections (site_mem st r) \<Longrightarrow> \<not> is_closed (send (client_mem st c))"
  by (auto simp: handleUnregister_def close_chan_def Let_def split: if_splits)

lemma broadcast_loop_stays_closed:
  "broadcast_loop m r cs st = Inr st' \<Longrightarrow> is_closed (send (client_mem st c)) \<Longrightarrow>
     is_closed (send (client_mem st' c))"
proof (induction cs arbitrary: st)
  case Nil
  then show ?case by simp
next
  case (Cons a cs)
  from Cons.prems have open_a: "\<not> is_closed (send (client_mem st a))"
    by (auto simp: broadcast_loop_Cons_closed)
  with Cons.prems have ca: "c \<noteq> a" by auto
  show ?case
  proof (cases "has_room st a")
    case True
    with Cons.prems open_a
    have "broadcast_loop m r cs
         (upd_client a (\<lambda>x. x\<lparr>send := (send (client_mem st a))\<lparr>buf := buf (send (client_mem st a)) @ [m]\<rparr>\<rparr>) st) = Inr st'"
      by (simp add: broadcast_loop_Cons_room)
    from Cons.IH[OF this] Cons.prems(2) ca show ?thesis by simp
  next
    case False
    with Cons.prems open_a
    have "broadcast_loop m r cs
         (upd_client a (\<lambda>x. x\<lparr>send := (send (client_mem st a))\<lparr>is_closed := True\<rparr>\<rparr>)
           (upd_site r (\<lambda>s. s\<lparr>Connections := Connections s |-| {|a|}\<rparr>) st)) = Inr st'"
      by (simp add: broadcast_loop_Cons_full)
    from Cons.IH[OF this] Cons.prems(2) ca show ?thesis by simp
  qed
qed

lemma broadcastToSite_frame:
  "broadcastToSite now k n st = Inr st' \<Longrightarrow>
     sites st' = sites st \<and> next_site st' = next_site st \<and> issued st' = issued st \<and>
     (\<forall>q. Count (site_mem st' q) = Count (site_mem st q) \<and> ID (site_mem st' q) = ID (site_mem st q))"
  by (auto simp: broadcastToSite_def Let_def split: option.splits
        dest: broadcast_loop_frame broadcast_loop_site_fields)

lemma broadcastToSite_stays_closed:
  "broadcastToSite now k n st = Inr st' \<Longrightarrow> is_closed (send (client_mem st c)) \<Longrightarrow>
     is_closed (send (client_mem st' c))"
  by (auto simp: broadcastToSite_def Let_def split: option.splits
        dest: broadcast_loop_stays_closed)

lemma broadcastToSite_bufs:
  assumes "broadcastToSite now k n st = Inr st'"
  shows "buf (send (client_mem st' x)) = buf (send (client_mem st x)) \<or>
         buf (send (client_mem st' x)) = buf (send (client_mem st x)) @ [update_message k n now]"
proof (cases "sites st k")
  case None
  with assms show ?thesis by (simp add: broadcastToSite_def)
next
  case (Some r)
  define cs where "cs = sorted_list_of_fset (Connections (site_mem st r))"
  have l: "broadcast_loop (update_message k n now) r cs st = Inr st'"
    using assms Some by (simp add: broadcastToSite_def Let_def cs_def)
  have d: "distinct cs" by (simp add: cs_def distinct_sorted_list_of_fset)
  show ?thesis
  proof (cases "x \<in> set cs")
    case True
    from broadcast_loop_send[OF l d True] show ?thesis by (simp split: if_splits)
  next
    case False
    from broadcast_loop_untouched[OF l False] show ?thesis by simp
  qed
qed

lemma broadcastToSite_counted:
  assumes "broadcastToSite now k n st = Inr st'" "counted st"
  shows "counted st'"
  unfolding counted_def
proof
  fix q
  have "fcard (Connections (site_mem st' q)) \<le> fcard (Connections (site_mem st q))"
    using broadcastToSite_Connections_subset[OF assms(1), of q] by (rule fcard_mono)
  moreover have "Count (site_mem st' q) = Count (site_mem st q)"
    using broadcastToSite_frame[OF assms(1)] by simp
  moreover have "int (fcard (Connections (site_mem st q))) \<le> Count (site_mem st q)"
    using assms(2) by (simp add: counted_def)
  ultimately show "int (fcard (Connections (site_mem st' q))) \<le> Count (site_mem st' q)"
    by simp
qed

text \<open>
  What a detach of a member leaves behind when it returns: the channel is closed, the
  client still points at its site and is no longer among its connections, no site has
  changed its key, and the registry has only lost entries.
\<close>

lemma handleUnregister_member:
  assumes res: "handleUnregister now c st = Inr st'"
    and s: "site (client_mem st c) = Some r" and mem: "c |\<in>| Connections (site_mem st r)"
  shows "is_closed (send (client_mem st' c)) \<and> site (client_mem st' c) = Some r \<and>
         c |\<notin>| Connections (site_mem st' r) \<and>
         (\<forall>q. ID (site_mem st' q) = ID (site_mem st q)) \<and>
         (\<forall>k q. sites st' k = Some q \<longrightarrow> sites st k = Some q) \<and>
         next_site st' = next_site st"
proof -
  from handleUnregister_unfold[OF s mem handleUnregister_member_open[OF res s mem], of now]
  obtain st4 where
    cm: "client_mem st4 = (client_mem st)
             (c := (client_mem st c)\<lparr>send := (send (client_mem st c))\<lparr>is_closed := True\<rparr>\<rparr>)"
    and sm: "site_mem st4 = (site_mem st)
             (r := (site_mem st r)\<lparr>Connections := Connections (site_mem st r) |-| {|c|},
                     Count := (if int_wrap (Count (site_mem st r) - 1) < 0 then 0
                               else int_wrap (Count (site_mem st r) - 1))\<rparr>)"
    and fr: "sites st4 = sites st" "next_site st4 = next_site st"
    and eq: "handleUnregister now c st =
             (if fcard (Connections (site_mem st4 r)) = 0
              then Inr (st4\<lparr>sites := (sites st4)(ID (site_mem st4 r) := None)\<rparr>)
              else broadcastToSite now (ID (site_mem st4 r)) (Count (site_mem st4 r)) st4)"
    by blast
  have st4: "site (client_mem st4 c) = Some r" "is_closed (send (client_mem st4 c))"
    "c |\<notin>| Connections (site_mem st4 r)" "\<And>q. ID (site_mem st4 q) = ID (site_mem st q)"
    using s by (simp_all add: cm sm)
  show ?thesis
  proof (cases "fcard (Connections (site_mem st4 r)) = 0")
    case True
    with res eq have "st' = st4\<lparr>sites := (sites st4)(ID (site_mem st4 r) := None)\<rparr>" by simp
    with st4 fr show ?thesis by (auto split: if_splits)
  next
    case False
    with res eq
    have b: "broadcastToSite now (ID (site_mem st4 r)) (Count (site_mem st4 r)) st4 = Inr st'"
      by simp
    from broadcastToSite_client_fields[OF b, of c] broadcastToSite_frame[OF b]
      broadcastToSite_stays_closed[OF b, of c] broadcastToSite_Connections_subset[OF b, of r]
      st4 fr
    show ?thesis by auto
  qed
qed

text \<open>
  After any detach that returns, the client still points at its site and is not among the
  site's connections.
\<close>

lemma handleUnregister_not_member:
  assumes "handleUnregister now c st = Inr st'"
  shows "site (client_mem st' c) = site (client_mem st c) \<and>
         (\<forall>r. site (client_mem st c) = Some r \<longrightarrow> c |\<notin>| Connections (site_mem st' r))"
proof (cases "site (client_mem st c)")
  case None
  with assms show ?thesis by (simp add: handleUnregister_def)
next
  case (Some r)
  show ?thesis
  proof (cases "c |\<in>| Connections (site_mem st r)")
    case False
    with assms Some show ?thesis by (simp add: handleUnregister_def)
  next
    case True
    from handleUnregister_member[OF assms Some True] Some show ?thesis by simp
  qed
qed

text \<open>The two orders of the hub and the reader differ only when a detach is sent.\<close>

lemma readPump_frame_late_eq:
  "Unmarshal d = None \<or>
   (\<exists>msg. Unmarshal d = Some msg \<and>
      (Type msg \<noteq> ''join'' \<or> SiteID msg = [] \<or> \<not> holds_other_site c (TrimSpace (SiteID msg)) st)) \<Longrightarrow>
   readPump_frame_late TrimSpace Unmarshal tu tr c d st = readPump_frame TrimSpace Unmarshal tu tr c d st"
  by (auto simp: readPump_frame_late_def readPump_frame_def Let_def split: prod.splits)

section \<open>The claims\<close>

subsection \<open>C1: the count and the member set after a hub operation\<close>

text \<open>
  C1 says that after every \<^verbatim>\<open>handleRegister\<close>, \<^verbatim>\<open>handleUnregister\<close> and
  \<^verbatim>\<open>broadcastToSite\<close> the \<^verbatim>\<open>Count\<close> of the site equals the number of its
  \<^verbatim>\<open>Connections\<close> and is not negative. The code breaks it: \<^verbatim>\<open>broadcastToSite\<close> deletes
  a client whose queue is full and closes its channel, as \<^verbatim>\<open>handleUnregister\<close> does, and
  leaves \<^verbatim>\<open>Count\<close> as it was. When client 4 attaches to the site of \<open>blog_state\<close>, the
  handler returns with \<^verbatim>\<open>Count\<close> 4 and three connections.
\<close>

theorem register_shed_Count_exceeds_members:
  "\<exists>st'. handleRegister 100 4 blog_state = Inr st' \<and>
     Count (site_mem st' 0) = 4 \<and> fcard (Connections (site_mem st' 0)) = 3"
  by (simp add: run_simps blog_state_def)

subsection \<open>C2: a broadcast with one full queue\<close>

text \<open>
  C2 says that a broadcast to N members of which one has a full queue removes that
  member, enqueues the update to the other N - 1, and decrements \<^verbatim>\<open>Count\<close> by one. In
  \<open>blog_state\<close> the broadcast removes client 1 and closes its channel, and clients 2 and
  3 receive the update, but \<^verbatim>\<open>Count\<close> stays at 3 for two members: the loop of
  \<^verbatim>\<open>broadcastToSite\<close> has no \<^verbatim>\<open>site.Count--\<close>.
\<close>

theorem broadcast_shed_keeps_Count:
  "\<exists>st'. broadcastToSite 100 ''blog'' 3 blog_state = Inr st' \<and>
     1 |\<notin>| Connections (site_mem st' 0) \<and>
     2 |\<in>| Connections (site_mem st' 0) \<and> 3 |\<in>| Connections (site_mem st' 0) \<and>
     fcard (Connections (site_mem st' 0)) = 2 \<and>
     is_closed (send (client_mem st' 1)) \<and>
     buf (send (client_mem st' 2)) = [update_message ''blog'' 3 100] \<and>
     buf (send (client_mem st' 3)) = [update_message ''blog'' 3 100] \<and>
     Count (site_mem st' 0) = 3"
  by (simp add: run_simps blog_state_def)

subsection \<open>C3: registry entries and empty sites\<close>

text \<open>
  C3 says that after a completed operation a key is in \<^verbatim>\<open>Hub.sites\<close> exactly when its
  site has a member, and that an operation which empties a site removes the key in the
  same step. In \<open>pair_state\<close> client 2 detaches; one connection is left, so the handler
  broadcasts; the broadcast finds the queue of client 1 full and deletes it. The site is
  now empty, and the key \<^verbatim>\<open>blog\<close> is still registered: only \<^verbatim>\<open>handleUnregister\<close> deletes
  keys, and it checked before the broadcast.
\<close>

theorem shed_leaves_empty_site_registered:
  "\<exists>st'. handleUnregister 100 2 pair_state = Inr st' \<and>
     Connections (site_mem st' 0) = {||} \<and> sites st' ''blog'' = Some 0"
  by (simp add: run_simps pair_state_def)

subsection \<open>C4: switching from one site to another\<close>

text \<open>
  C4 says that a join for another site moves the endpoint: the old site loses it, the new
  site gains it, the endpoint is a member of the new site only, and broadcasts to the new
  site go on normally. In \<open>solo_state\<close> client 1 is the member of site \<^verbatim>\<open>A\<close> and sends a
  join for \<^verbatim>\<open>B\<close>. When the hub handles the detach at once, \<^verbatim>\<open>handleUnregister\<close> closes
  \<^verbatim>\<open>client.send\<close>; \<^verbatim>\<open>handleRegister\<close> then adds the client to \<^verbatim>\<open>B\<close> and broadcasts, and
  the send on the closed channel panics. When the hub handles the detach after the reader
  has stored the new site, \<^verbatim>\<open>handleUnregister\<close> looks for the client in \<^verbatim>\<open>B\<close> and does
  nothing: the client ends as a member of both sites and \<^verbatim>\<open>A\<close> keeps its count.
\<close>

theorem switch_site_fails:
  \<open>readPump_frame trim_ascii example_Unmarshal 100 101 1 ''{"type":"join","siteId":"B"}''
     solo_state = Inl SendOnClosedChannel \<and>
   (\<exists>st'. readPump_frame_late trim_ascii example_Unmarshal 100 101 1
              ''{"type":"join","siteId":"B"}'' solo_state = Inr st' \<and>
      site (client_mem st' 1) = Some 1 \<and> ID (site_mem st' 1) = ''B'' \<and>
      1 |\<in>| Connections (site_mem st' 1) \<and> Count (site_mem st' 1) = 1 \<and>
      sites st' ''A'' = Some 0 \<and>
      1 |\<in>| Connections (site_mem st' 0) \<and> Count (site_mem st' 0) = 1)\<close>
  by (simp add: run_simps readPump_frame_late_def solo_state_def example_Unmarshal_def
        join_message_def trim_ascii_def is_space_def)

subsection \<open>C5: attach\<close>

text \<open>
  C5, as amended. An endpoint without a site: \<^verbatim>\<open>handleRegister\<close> changes nothing. An
  endpoint whose site is the one registered under its key, when no queue among the
  members and the endpoint has been closed: the handler returns; the count is one more
  than before (as a 64-bit \<^verbatim>\<open>int\<close>); every member and the endpoint itself, if its queue
  has room, is a member afterwards and has the update with the new count appended to its
  queue; one whose queue is full gets nothing, is removed from the member set and has its
  queue closed; nothing else changes.
\<close>

theorem handleRegister_effect:
  "(site (client_mem st c) = None \<longrightarrow> handleRegister now c st = Inr st) \<and>
   (\<forall>r. site (client_mem st c) = Some r \<and>
        sites st (ID (site_mem st r)) = Some r \<and>
        (\<forall>x. x |\<in>| finsert c (Connections (site_mem st r)) \<longrightarrow>
             \<not> is_closed (send (client_mem st x))) \<longrightarrow>
      (\<exists>st'. handleRegister now c st = Inr st' \<and>
         Count (site_mem st' r) = int_wrap (Count (site_mem st r) + 1) \<and>
         (- (2 ^ 63) \<le> Count (site_mem st r) \<and> Count (site_mem st r) < 2 ^ 63 - 1 \<longrightarrow>
            Count (site_mem st' r) = Count (site_mem st r) + 1) \<and>
         Connections (site_mem st' r) =
           ffilter (has_room st) (finsert c (Connections (site_mem st r))) \<and>
         (\<forall>x. x |\<in>| finsert c (Connections (site_mem st r)) \<longrightarrow>
            send (client_mem st' x) =
              (if has_room st x
               then (send (client_mem st x))\<lparr>buf := buf (send (client_mem st x)) @
                      [update_message (ID (site_mem st r))
                         (int_wrap (Count (site_mem st r) + 1)) now]\<rparr>
               else (send (client_mem st x))\<lparr>is_closed := True\<rparr>)) \<and>
         (\<forall>x. x |\<notin>| finsert c (Connections (site_mem st r)) \<longrightarrow>
            client_mem st' x = client_mem st x) \<and>
         ID (site_mem st' r) = ID (site_mem st r) \<and>
         (\<forall>q. q \<noteq> r \<longrightarrow> site_mem st' q = site_mem st q) \<and>
         sites st' = sites st \<and> next_site st' = next_site st \<and> issued st' = issued st))"
proof (intro conjI allI impI)
  assume "site (client_mem st c) = None"
  then show "handleRegister now c st = Inr st"
    by (simp add: handleRegister_def)
next
  fix r
  assume h: "site (client_mem st c) = Some r \<and>
        sites st (ID (site_mem st r)) = Some r \<and>
        (\<forall>x. x |\<in>| finsert c (Connections (site_mem st r)) \<longrightarrow>
             \<not> is_closed (send (client_mem st x)))"
  define A where "A = finsert c (Connections (site_mem st r))"
  define n where "n = int_wrap (Count (site_mem st r) + 1)"
  define st2 where "st2 =
    upd_site r (\<lambda>s. s\<lparr>Count := int_wrap (Count s + 1)\<rparr>)
      (upd_site r (\<lambda>s. s\<lparr>Connections := finsert c (Connections s)\<rparr>) st)"
  define m where "m = update_message (ID (site_mem st r)) n now"
  define cs where "cs = sorted_list_of_fset A"
  have st2: "client_mem st2 = client_mem st" "sites st2 = sites st"
    "Connections (site_mem st2 r) = A" "Count (site_mem st2 r) = n"
    "ID (site_mem st2 r) = ID (site_mem st r)" "has_room st2 = has_room st"
    "next_site st2 = next_site st" "issued st2 = issued st"
    "\<And>q. q \<noteq> r \<Longrightarrow> site_mem st2 q = site_mem st q"
    by (simp_all add: st2_def A_def n_def) (simp_all add: upd_site_def)
  have eq: "handleRegister now c st = broadcast_loop m r cs st2"
    using h
    by (simp add: handleRegister_def broadcastToSite_def Let_def st2_def[symmetric] st2
          m_def cs_def)
  have cs: "distinct cs" "set cs = fset A" "fset_of_list cs = A"
    by (simp_all add: cs_def distinct_sorted_list_of_fset)
  have "\<forall>x\<in>set cs. \<not> is_closed (send (client_mem st2 x))"
    using h by (simp add: cs st2 A_def)
  from broadcast_loop_returns[OF cs(1) this]
  obtain st' where r: "broadcast_loop m r cs st2 = Inr st'" by blast
  have count: "Count (site_mem st' r) = n" and ident: "ID (site_mem st' r) = ID (site_mem st r)"
    using broadcast_loop_site_fields[OF r, of r] by (simp_all add: st2)
  have plain: "- (2 ^ 63) \<le> Count (site_mem st r) \<and> Count (site_mem st r) < 2 ^ 63 - 1 \<longrightarrow>
      Count (site_mem st' r) = Count (site_mem st r) + 1"
    using count by (auto simp: n_def intro: int_wrap_id)
  have members: "Connections (site_mem st' r) = ffilter (has_room st) A"
    using broadcast_loop_Connections[OF r cs(1)] by (simp add: st2 cs fminus_ffilter_not)
  have queues: "\<forall>x. x |\<in>| A \<longrightarrow> send (client_mem st' x) =
          (if has_room st x
           then (send (client_mem st x))\<lparr>buf := buf (send (client_mem st x)) @ [m]\<rparr>
           else (send (client_mem st x))\<lparr>is_closed := True\<rparr>)"
    using broadcast_loop_send[OF r cs(1)] by (simp add: st2 cs)
  have others: "\<forall>x. x |\<notin>| A \<longrightarrow> client_mem st' x = client_mem st x"
    using broadcast_loop_untouched[OF r] by (simp add: st2 cs)
  have sites: "\<forall>q. q \<noteq> r \<longrightarrow> site_mem st' q = site_mem st q"
    using broadcast_loop_other_sites[OF r] by (simp add: st2)
  have frame: "sites st' = sites st \<and> next_site st' = next_site st \<and> issued st' = issued st"
    using broadcast_loop_frame[OF r] by (simp add: st2)
  show "\<exists>st'. handleRegister now c st = Inr st' \<and>
         Count (site_mem st' r) = int_wrap (Count (site_mem st r) + 1) \<and>
         (- (2 ^ 63) \<le> Count (site_mem st r) \<and> Count (site_mem st r) < 2 ^ 63 - 1 \<longrightarrow>
            Count (site_mem st' r) = Count (site_mem st r) + 1) \<and>
         Connections (site_mem st' r) =
           ffilter (has_room st) (finsert c (Connections (site_mem st r))) \<and>
         (\<forall>x. x |\<in>| finsert c (Connections (site_mem st r)) \<longrightarrow>
            send (client_mem st' x) =
              (if has_room st x
               then (send (client_mem st x))\<lparr>buf := buf (send (client_mem st x)) @
                      [update_message (ID (site_mem st r))
                         (int_wrap (Count (site_mem st r) + 1)) now]\<rparr>
               else (send (client_mem st x))\<lparr>is_closed := True\<rparr>)) \<and>
         (\<forall>x. x |\<notin>| finsert c (Connections (site_mem st r)) \<longrightarrow>
            client_mem st' x = client_mem st x) \<and>
         ID (site_mem st' r) = ID (site_mem st r) \<and>
         (\<forall>q. q \<noteq> r \<longrightarrow> site_mem st' q = site_mem st q) \<and>
         sites st' = sites st \<and> next_site st' = next_site st \<and> issued st' = issued st"
    using r count plain ident members queues others sites frame
    unfolding eq A_def m_def n_def by (intro exI[of _ st']) simp
qed

text \<open>
  The theorem at \<open>pair_state\<close>: client 3 attaches, clients 2 and 3 receive the update with
  count 3, client 1 is shed, and client 5, which holds no site, changes nothing.
\<close>

theorem handleRegister_effect_witness:
  "site (client_mem pair_state 3) = Some 0 \<and> sites pair_state ''blog'' = Some 0 \<and>
   site (client_mem pair_state 5) = None \<and>
   handleRegister 100 5 pair_state = Inr pair_state \<and>
   (\<exists>st'. handleRegister 100 3 pair_state = Inr st' \<and>
      Count (site_mem st' 0) = 3 \<and>
      send (client_mem st' 2) = \<lparr>buf = [update_message ''blog'' 3 100], is_closed = False\<rparr> \<and>
      send (client_mem st' 3) = \<lparr>buf = [update_message ''blog'' 3 100], is_closed = False\<rparr> \<and>
      is_closed (send (client_mem st' 1)))"
proof -
  have nil: "site (client_mem pair_state 5) = None"
    by (simp add: pair_state_def new_client_def)
  have hyp: "site (client_mem pair_state 3) = Some 0 \<and>
        sites pair_state (ID (site_mem pair_state 0)) = Some 0 \<and>
        (\<forall>x. x |\<in>| finsert 3 (Connections (site_mem pair_state 0)) \<longrightarrow>
             \<not> is_closed (send (client_mem pair_state x)))"
    by (auto simp: pair_state_def client_at_def)
  have vals: "ID (site_mem pair_state 0) = ''blog''" "Count (site_mem pair_state 0) = 2"
    "has_room pair_state 2" "has_room pair_state 3" "\<not> has_room pair_state 1"
    "send (client_mem pair_state 2) = \<lparr>buf = [], is_closed = False\<rparr>"
    "send (client_mem pair_state 3) = \<lparr>buf = [], is_closed = False\<rparr>"
    "1 |\<in>| finsert 3 (Connections (site_mem pair_state 0))"
    "2 |\<in>| finsert 3 (Connections (site_mem pair_state 0))"
    "3 |\<in>| finsert 3 (Connections (site_mem pair_state 0))"
    "sites pair_state ''blog'' = Some 0"
    by (simp_all add: pair_state_def client_at_def has_room_def chan_cap_def)
  have three: "int_wrap (2 + 1) = 3"
    by (simp add: int_wrap_def)
  from handleRegister_effect[of pair_state 3 100] hyp
  obtain st' where st': "handleRegister 100 3 pair_state = Inr st'"
      "Count (site_mem st' 0) = int_wrap (Count (site_mem pair_state 0) + 1)"
      "\<forall>x. x |\<in>| finsert 3 (Connections (site_mem pair_state 0)) \<longrightarrow>
            send (client_mem st' x) =
              (if has_room pair_state x
               then (send (client_mem pair_state x))\<lparr>buf := buf (send (client_mem pair_state x)) @
                      [update_message (ID (site_mem pair_state 0))
                         (int_wrap (Count (site_mem pair_state 0) + 1)) 100]\<rparr>
               else (send (client_mem pair_state x))\<lparr>is_closed := True\<rparr>)"
    by blast
  from st'(3) vals three have
    "send (client_mem st' 2) = \<lparr>buf = [update_message ''blog'' 3 100], is_closed = False\<rparr>"
    "send (client_mem st' 3) = \<lparr>buf = [update_message ''blog'' 3 100], is_closed = False\<rparr>"
    "is_closed (send (client_mem st' 1))"
    by simp_all
  moreover have "handleRegister 100 5 pair_state = Inr pair_state"
    using handleRegister_effect[of pair_state 5 100] nil by blast
  ultimately show ?thesis
    using st'(1,2) vals three hyp nil by simp
qed

text \<open>
  C5 as it is written fails in two ways. In \<open>pair_state\<close> client 1 is a member with a full
  queue: after the attach of client 3 it has not received the update and is no longer a
  member. In \<open>orphan_state\<close> client 2 holds a site that the hub has already taken out of
  the registry: the attach adds it and counts it, and the broadcast finds no site, so the
  new member receives nothing.
\<close>

theorem handleRegister_not_every_member_counterexample:
  "site (client_mem pair_state 3) = Some 0 \<and> 1 |\<in>| Connections (site_mem pair_state 0) \<and>
   (\<exists>st'. handleRegister 100 3 pair_state = Inr st' \<and>
      buf (send (client_mem st' 1)) = buf (send (client_mem pair_state 1)) \<and>
      1 |\<notin>| Connections (site_mem st' 0)) \<and>
   site (client_mem orphan_state 2) = Some 0 \<and>
   (\<exists>st'. handleRegister 100 2 orphan_state = Inr st' \<and>
      2 |\<in>| Connections (site_mem st' 0) \<and> Count (site_mem st' 0) = 1 \<and>
      buf (send (client_mem st' 2)) = [])"
  by (simp add: run_simps pair_state_def orphan_state_def)

subsection \<open>C6: detach of an endpoint that is not a member\<close>

text \<open>
  C6: for an endpoint that holds no site, or is not among the connections of the site it
  holds, \<^verbatim>\<open>handleUnregister\<close> returns the state it was given (count, member set and
  registry with it); and two detaches of the same endpoint in a row give what the first
  one gives.
\<close>

theorem handleUnregister_idempotent:
  "((site (client_mem st c) = None \<or>
      (\<exists>r. site (client_mem st c) = Some r \<and> c |\<notin>| Connections (site_mem st r)))
      \<longrightarrow> handleUnregister now c st = Inr st) \<and>
   (case handleUnregister now c st of
      Inl p \<Rightarrow> Inl p
    | Inr st' \<Rightarrow> handleUnregister now' c st') = handleUnregister now c st"
proof (intro conjI impI)
  assume "site (client_mem st c) = None \<or>
      (\<exists>r. site (client_mem st c) = Some r \<and> c |\<notin>| Connections (site_mem st r))"
  then show "handleUnregister now c st = Inr st"
    by (auto simp: handleUnregister_def)
next
  show "(case handleUnregister now c st of
      Inl p \<Rightarrow> Inl p
    | Inr st' \<Rightarrow> handleUnregister now' c st') = handleUnregister now c st"
  proof (cases "handleUnregister now c st")
    case (Inl p)
    then show ?thesis by simp
  next
    case (Inr st')
    from handleUnregister_not_member[OF this]
    have "handleUnregister now' c st' = Inr st'"
      by (cases "site (client_mem st c)") (auto simp: handleUnregister_def)
    with Inr show ?thesis by simp
  qed
qed

text \<open>
  In \<open>solo_state\<close>: client 2 holds no site and its detach is a no-op; client 1 is the
  member of site \<^verbatim>\<open>A\<close>, its detach reclaims the site, and a second detach changes nothing.
  In \<open>orphan_state\<close> client 2 holds a site and is not among its connections.
\<close>

theorem handleUnregister_idempotent_witness:
  "site (client_mem solo_state 1) = Some 0 \<and> 1 |\<in>| Connections (site_mem solo_state 0) \<and>
   site (client_mem solo_state 2) = None \<and>
   handleUnregister 100 2 solo_state = Inr solo_state \<and>
   site (client_mem orphan_state 2) = Some 0 \<and> 2 |\<notin>| Connections (site_mem orphan_state 0) \<and>
   handleUnregister 100 2 orphan_state = Inr orphan_state \<and>
   (\<exists>st'. handleUnregister 100 1 solo_state = Inr st' \<and>
      sites st' ''A'' = None \<and> Count (site_mem st' 0) = 0 \<and>
      handleUnregister 200 1 st' = Inr st')"
proof -
  obtain st' where 1: "handleUnregister 100 1 solo_state = Inr st'"
    and 2: "sites st' ''A'' = None" "Count (site_mem st' 0) = 0"
    by (simp add: run_simps solo_state_def)
  have "handleUnregister 200 1 st' = Inr st'"
    using handleUnregister_idempotent[of solo_state 1 100 200] 1 by simp
  moreover have "handleUnregister 100 2 solo_state = Inr solo_state"
    using handleUnregister_idempotent[of solo_state 2 100 200]
    by (simp add: solo_state_def new_client_def)
  moreover have "handleUnregister 100 2 orphan_state = Inr orphan_state"
    using handleUnregister_idempotent[of orphan_state 2 100 200]
    by (simp add: orphan_state_def client_at_def)
  ultimately show ?thesis
    using 1 2
    by (simp add: solo_state_def orphan_state_def client_at_def new_client_def)
qed

subsection \<open>C7: getSite\<close>

text \<open>
  C7: \<^verbatim>\<open>getSite\<close> always returns. For a registered key it returns the registered site
  and changes nothing. For an absent key it allocates a site with that \<^verbatim>\<open>ID\<close>, count 0
  and no connections, registers it under the key and returns it, leaving every other
  site and every client as they were. A second call with the same key returns the same
  site and the same state as the first.
\<close>

theorem getSite_resolves:
  "(\<forall>r. sites st k = Some r \<longrightarrow> getSite k st = (r, st)) \<and>
   (sites st k = None \<longrightarrow>
      fst (getSite k st) = next_site st \<and>
      site_mem (snd (getSite k st)) (next_site st) = \<lparr>ID = k, Count = 0, Connections = {||}\<rparr> \<and>
      sites (snd (getSite k st)) = (sites st)(k \<mapsto> next_site st) \<and>
      next_site (snd (getSite k st)) = Suc (next_site st) \<and>
      (\<forall>q. q \<noteq> next_site st \<longrightarrow> site_mem (snd (getSite k st)) q = site_mem st q) \<and>
      client_mem (snd (getSite k st)) = client_mem st \<and>
      issued (snd (getSite k st)) = issued st) \<and>
   sites (snd (getSite k st)) k = Some (fst (getSite k st)) \<and>
   getSite k (snd (getSite k st)) = getSite k st"
  by (cases "sites st k") (simp_all add: getSite_def Let_def)

theorem getSite_resolves_witness:
  "sites solo_state ''A'' = Some 0 \<and> getSite ''A'' solo_state = (0, solo_state) \<and>
   sites solo_state ''B'' = None \<and> fst (getSite ''B'' solo_state) = 1 \<and>
   site_mem (snd (getSite ''B'' solo_state)) 1 = \<lparr>ID = ''B'', Count = 0, Connections = {||}\<rparr> \<and>
   sites (snd (getSite ''B'' solo_state)) ''B'' = Some 1 \<and>
   site_mem (snd (getSite ''B'' solo_state)) 0 = site_mem solo_state 0 \<and>
   getSite ''B'' (snd (getSite ''B'' solo_state)) = getSite ''B'' solo_state"
  using getSite_resolves[of solo_state "''A''"] getSite_resolves[of solo_state "''B''"]
  by (simp add: solo_state_def)

subsection \<open>C8: the update frame\<close>

text \<open>
  C8, as amended. The frame of an update is the JSON object with \<^verbatim>\<open>type\<close> \<^verbatim>\<open>update\<close>,
  then \<^verbatim>\<open>siteId\<close> unless the site key is empty, \<^verbatim>\<open>count\<close> unless the count is 0, and
  \<^verbatim>\<open>timestamp\<close> unless the clock reading is 0, each with the value of the message, and
  no other member.
\<close>

theorem update_frame_fields:
  "marshal_Message (update_message k n t) =
     [(''type'', JString ''update'')]
     @ (if k = [] then [] else [(''siteId'', JString k)])
     @ (if n = 0 then [] else [(''count'', JNumber n)])
     @ (if t = 0 then [] else [(''timestamp'', JNumber t)])"
  by (simp add: marshal_Message_def update_message_def)

theorem update_frame_fields_witness:
  "marshal_Message (update_message ''blog'' 3 1700000000) =
     [(''type'', JString ''update''), (''siteId'', JString ''blog''),
      (''count'', JNumber 3), (''timestamp'', JNumber 1700000000)]"
  using update_frame_fields[of "''blog''" 3 1700000000] by simp

text \<open>
  C8 as it is written fails for the count 0, whose frame has no \<^verbatim>\<open>count\<close>, and for the
  empty site key (a join whose key is all spaces is trimmed to it), whose frame has no
  \<^verbatim>\<open>siteId\<close>.
\<close>

theorem update_frame_count_omitted_counterexample:
  "map_of (marshal_Message (update_message ''blog'' 0 1700000000)) ''count'' = None \<and>
   map_of (marshal_Message (update_message [] 1 1700000000)) ''siteId'' = None"
  by (simp add: marshal_Message_def update_message_def)

subsection \<open>C9: frames the reader discards\<close>

text \<open>
  C9: when \<^verbatim>\<open>json.Unmarshal\<close> fails on a frame, or gives a message whose type is not
  \<^verbatim>\<open>join\<close> or whose site key is empty, that pass of the loop returns the state it was
  given (no command sent, the connection still open), and \<^verbatim>\<open>readPump\<close> goes on with the
  next event in that state.
\<close>

theorem readPump_discards_frame:
  "Unmarshal d = None \<or>
   (\<exists>msg. Unmarshal d = Some msg \<and> (Type msg \<noteq> ''join'' \<or> SiteID msg = [])) \<Longrightarrow>
   readPump_frame TrimSpace Unmarshal tu tr c d st = Inr st \<and>
   readPump_frame_late TrimSpace Unmarshal tu tr c d st = Inr st \<and>
   readPump TrimSpace Unmarshal c ((Frame d, tu, tr) # rest) st =
     readPump TrimSpace Unmarshal c rest st"
  by (auto simp: readPump_frame_def readPump_frame_late_def)

theorem readPump_discards_frame_witness:
  \<open>example_Unmarshal ''not json'' = None \<and>
   readPump_frame trim_ascii example_Unmarshal 1 2 1 ''not json'' solo_state = Inr solo_state \<and>
   readPump trim_ascii example_Unmarshal 1 [(Frame ''not json'', 1, 2)] solo_state
     = Inr solo_state \<and>
   map_option Type (example_Unmarshal ''{"type":"ping"}'') = Some ''ping'' \<and>
   readPump trim_ascii example_Unmarshal 1 [(Frame ''{"type":"ping"}'', 1, 2)] solo_state
     = Inr solo_state\<close>
proof -
  have 1: "example_Unmarshal ''not json'' = None"
    by (simp add: example_Unmarshal_def)
  have 2: \<open>example_Unmarshal ''{"type":"ping"}'' =
      Some \<lparr>Type = ''ping'', SiteID = [], MCount = 0, MMessage = [], Timestamp = 0\<rparr>\<close>
    by (simp add: example_Unmarshal_def)
  show ?thesis
    using readPump_discards_frame[of example_Unmarshal "''not json''" trim_ascii 1 2 1 solo_state "[]"]
      readPump_discards_frame[of example_Unmarshal \<open>''{"type":"ping"}''\<close> trim_ascii 1 2 1 solo_state "[]"]
      1 2
    by simp
qed

subsection \<open>C10: a join for the site already held\<close>

text \<open>
  C10: when the endpoint holds a site whose \<^verbatim>\<open>ID\<close> is the trimmed key of a join frame,
  that pass of the loop returns the state it was given: no command is sent to the hub
  (\<open>issued\<close> is part of the state), the endpoint's site, the count, the member set and
  every queue are unchanged, and \<^verbatim>\<open>readPump\<close> goes on with the next event.
\<close>

theorem readPump_same_site_noop:
  "Unmarshal d = Some msg \<Longrightarrow> Type msg = ''join'' \<Longrightarrow>
   site (client_mem st c) = Some r \<Longrightarrow> ID (site_mem st r) = TrimSpace (SiteID msg) \<Longrightarrow>
   readPump_frame TrimSpace Unmarshal tu tr c d st = Inr st \<and>
   readPump_frame_late TrimSpace Unmarshal tu tr c d st = Inr st \<and>
   readPump TrimSpace Unmarshal c ((Frame d, tu, tr) # rest) st =
     readPump TrimSpace Unmarshal c rest st"
  by (simp add: readPump_frame_def readPump_frame_late_def holds_other_site_def must_join_def)

theorem readPump_same_site_noop_witness:
  \<open>example_Unmarshal ''{"type":"join","siteId":" A "}'' = Some (join_message '' A '') \<and>
   Type (join_message '' A '') = ''join'' \<and>
   trim_ascii (SiteID (join_message '' A '')) = ''A'' \<and>
   site (client_mem solo_state 1) = Some 0 \<and> ID (site_mem solo_state 0) = ''A'' \<and>
   readPump_frame trim_ascii example_Unmarshal 1 2 1 ''{"type":"join","siteId":" A "}'' solo_state
     = Inr solo_state\<close>
proof -
  have 1: \<open>example_Unmarshal ''{"type":"join","siteId":" A "}'' = Some (join_message '' A '')\<close>
    by (simp add: example_Unmarshal_def)
  have 2: "trim_ascii '' A '' = ''A''"
    by (simp add: trim_ascii_def is_space_def)
  have 3: "site (client_mem solo_state 1) = Some 0" "ID (site_mem solo_state 0) = ''A''"
    by (simp_all add: solo_state_def client_at_def)
  show ?thesis
    using readPump_same_site_noop[of example_Unmarshal \<open>''{"type":"join","siteId":" A "}''\<close>
        "join_message '' A ''" solo_state 1 0 trim_ascii 1 2 "[]"] 1 2 3
    by (simp add: join_message_def)
qed

section \<open>Further properties\<close>

subsection \<open>Every switch panics when the hub handles the detach at once\<close>

text \<open>
  Whenever a member of a site sends a join for another key, and every registered site
  carries the key it is registered under, the pass of \<open>readPump_frame\<close> ends in a panic:
  the detach closes the channel (or finds it closed), and the attach sends on it.
\<close>

theorem switch_always_panics:
  assumes u: "Unmarshal d = Some msg" and j: "Type msg = ''join''" "SiteID msg \<noteq> []"
    and s: "site (client_mem st c) = Some a" and mem: "c |\<in>| Connections (site_mem st a)"
    and other: "ID (site_mem st a) \<noteq> TrimSpace (SiteID msg)"
    and reg: "\<forall>k q. sites st k = Some q \<longrightarrow> ID (site_mem st q) = k"
  shows "\<exists>p. readPump_frame TrimSpace Unmarshal tu tr c d st = Inl p"
proof -
  define k where "k = TrimSpace (SiteID msg)"
  define st0 where "st0 = st\<lparr>issued := issued st @ [Unregister c]\<rparr>"
  have st0: "site (client_mem st0 c) = Some a" "c |\<in>| Connections (site_mem st0 a)"
    "site_mem st0 = site_mem st" "sites st0 = sites st"
    using s mem by (simp_all add: st0_def)
  have h: "holds_other_site c k st"
    using s other by (simp add: holds_other_site_def k_def)
  have us: "hub_send tu (Unregister c) st = handleUnregister tu c st0"
    by (simp add: hub_send_def st0_def)
  show ?thesis
  proof (cases "handleUnregister tu c st0")
    case (Inl p)
    with u j h us show ?thesis
      by (simp add: readPump_frame_def k_def[symmetric])
  next
    case (Inr st1)
    from handleUnregister_member[OF Inr st0(1,2)]
    have st1: "is_closed (send (client_mem st1 c))" "site (client_mem st1 c) = Some a"
      "\<And>q. ID (site_mem st1 q) = ID (site_mem st q)"
      "\<And>k q. sites st1 k = Some q \<Longrightarrow> sites st k = Some q"
      by (auto simp: st0)
    have mj: "must_join c k st1"
      using st1 other by (simp add: must_join_def k_def)
    obtain r st2 where g: "getSite k st1 = (r, st2)" by (cases "getSite k st1")
    have st2: "sites st2 k = Some r" "ID (site_mem st2 r) = k" "client_mem st2 = client_mem st1"
      using g st1 reg by (auto simp: getSite_def Let_def split: option.splits)
    define st3 where "st3 = (upd_client c (\<lambda>x. x\<lparr>site := Some r\<rparr>) st2)\<lparr>issued :=
        issued (upd_client c (\<lambda>x. x\<lparr>site := Some r\<rparr>) st2) @ [Register c]\<rparr>"
    define st4 where "st4 =
      upd_site r (\<lambda>s. s\<lparr>Count := int_wrap (Count s + 1)\<rparr>)
        (upd_site r (\<lambda>s. s\<lparr>Connections := finsert c (Connections s)\<rparr>) st3)"
    have st4: "sites st4 k = Some r" "ID (site_mem st4 r) = k"
      "is_closed (send (client_mem st4 c))" "c |\<in>| Connections (site_mem st4 r)"
      using st2 st1(1) by (simp_all add: st4_def st3_def) (simp_all add: upd_site_def upd_client_def)
    have "hub_send tr (Register c) (upd_client c (\<lambda>x. x\<lparr>site := Some r\<rparr>) st2)
        = broadcastToSite tr k (Count (site_mem st4 r)) st4"
      using st2(2)
      by (simp add: hub_send_def handleRegister_def Let_def st4_def st3_def upd_client_def
            upd_site_def)
    also have "\<dots> = Inl SendOnClosedChannel"
      using st4 by (simp add: broadcastToSite_def Let_def)
        (rule broadcast_loop_panics, auto simp: distinct_sorted_list_of_fset)
    finally show ?thesis
      using u j h us Inr mj g by (simp add: readPump_frame_def k_def[symmetric])
  qed
qed

theorem switch_always_panics_witness:
  \<open>example_Unmarshal ''{"type":"join","siteId":"B"}'' = Some (join_message ''B'') \<and>
   site (client_mem blog_state 2) = Some 0 \<and> 2 |\<in>| Connections (site_mem blog_state 0) \<and>
   ID (site_mem blog_state 0) \<noteq> trim_ascii (SiteID (join_message ''B'')) \<and>
   sites blog_state (ID (site_mem blog_state 0)) = Some 0 \<and>
   (\<exists>p. readPump_frame trim_ascii example_Unmarshal 100 101 2 ''{"type":"join","siteId":"B"}''
      blog_state = Inl p)\<close>
proof -
  have 1: \<open>example_Unmarshal ''{"type":"join","siteId":"B"}'' = Some (join_message ''B'')\<close>
    by (simp add: example_Unmarshal_def)
  have 2: "Type (join_message ''B'') = ''join''" "SiteID (join_message ''B'') \<noteq> []"
    "trim_ascii (SiteID (join_message ''B'')) = ''B''"
    by (simp_all add: join_message_def trim_ascii_def is_space_def)
  have 3: "site (client_mem blog_state 2) = Some 0" "2 |\<in>| Connections (site_mem blog_state 0)"
    "ID (site_mem blog_state 0) = ''blog''" "sites blog_state ''blog'' = Some 0"
    by (simp_all add: blog_state_def client_at_def)
  have 4: "\<forall>k q. sites blog_state k = Some q \<longrightarrow> ID (site_mem blog_state q) = k"
    by (simp add: blog_state_def)
  have \<open>\<exists>p. readPump_frame trim_ascii example_Unmarshal 100 101 2
      ''{"type":"join","siteId":"B"}'' blog_state = Inl p\<close>
    using 1 2 3 4
    by (intro switch_always_panics[where msg="join_message ''B''" and a=0]) simp_all
  then show ?thesis using 1 2 3 by simp
qed

subsection \<open>The effect of a broadcast\<close>

text \<open>
  \<^verbatim>\<open>broadcastToSite\<close> for a key that is not registered changes nothing. For a registered
  key it panics when a member's channel is closed; otherwise it returns, every member with
  room has the update appended to its queue, every member with a full queue is removed and
  its channel closed, no \<^verbatim>\<open>Count\<close> changes, and the registry is unchanged.
\<close>

theorem broadcastToSite_effect:
  "(sites st k = None \<longrightarrow> broadcastToSite now k n st = Inr st) \<and>
   (\<forall>r. sites st k = Some r \<and>
        (\<exists>x. x |\<in>| Connections (site_mem st r) \<and> is_closed (send (client_mem st x))) \<longrightarrow>
      broadcastToSite now k n st = Inl SendOnClosedChannel) \<and>
   (\<forall>r. sites st k = Some r \<and>
        (\<forall>x. x |\<in>| Connections (site_mem st r) \<longrightarrow> \<not> is_closed (send (client_mem st x))) \<longrightarrow>
      (\<exists>st'. broadcastToSite now k n st = Inr st' \<and>
         Connections (site_mem st' r) = ffilter (has_room st) (Connections (site_mem st r)) \<and>
         (\<forall>x. x |\<in>| Connections (site_mem st r) \<longrightarrow>
            send (client_mem st' x) =
              (if has_room st x
               then (send (client_mem st x))\<lparr>buf := buf (send (client_mem st x)) @
                      [update_message k n now]\<rparr>
               else (send (client_mem st x))\<lparr>is_closed := True\<rparr>)) \<and>
         (\<forall>x. x |\<notin>| Connections (site_mem st r) \<longrightarrow> client_mem st' x = client_mem st x) \<and>
         (\<forall>q. Count (site_mem st' q) = Count (site_mem st q)) \<and>
         (\<forall>q. q \<noteq> r \<longrightarrow> site_mem st' q = site_mem st q) \<and>
         sites st' = sites st))"
proof (intro conjI allI impI)
  assume "sites st k = None"
  then show "broadcastToSite now k n st = Inr st"
    by (simp add: broadcastToSite_def)
next
  fix r
  assume "sites st k = Some r \<and>
        (\<exists>x. x |\<in>| Connections (site_mem st r) \<and> is_closed (send (client_mem st x)))"
  then show "broadcastToSite now k n st = Inl SendOnClosedChannel"
    by (simp add: broadcastToSite_def Let_def)
       (rule broadcast_loop_panics, auto simp: distinct_sorted_list_of_fset)
next
  fix r
  assume h: "sites st k = Some r \<and>
        (\<forall>x. x |\<in>| Connections (site_mem st r) \<longrightarrow> \<not> is_closed (send (client_mem st x)))"
  define cs where "cs = sorted_list_of_fset (Connections (site_mem st r))"
  define m where "m = update_message k n now"
  have cs: "distinct cs" "set cs = fset (Connections (site_mem st r))"
    "fset_of_list cs = Connections (site_mem st r)"
    by (simp_all add: cs_def distinct_sorted_list_of_fset)
  have eq: "broadcastToSite now k n st = broadcast_loop m r cs st"
    using h by (simp add: broadcastToSite_def Let_def cs_def m_def)
  have "\<forall>x\<in>set cs. \<not> is_closed (send (client_mem st x))"
    using h by (simp add: cs)
  from broadcast_loop_returns[OF cs(1) this]
  obtain st' where r: "broadcast_loop m r cs st = Inr st'" by blast
  have "Connections (site_mem st' r) = ffilter (has_room st) (Connections (site_mem st r))"
    using broadcast_loop_Connections[OF r cs(1)] by (simp add: cs fminus_ffilter_not)
  moreover have "\<forall>x. x |\<in>| Connections (site_mem st r) \<longrightarrow> send (client_mem st' x) =
          (if has_room st x
           then (send (client_mem st x))\<lparr>buf := buf (send (client_mem st x)) @ [m]\<rparr>
           else (send (client_mem st x))\<lparr>is_closed := True\<rparr>)"
    using broadcast_loop_send[OF r cs(1)] by (simp add: cs)
  moreover have "\<forall>x. x |\<notin>| Connections (site_mem st r) \<longrightarrow> client_mem st' x = client_mem st x"
    using broadcast_loop_untouched[OF r] by (simp add: cs)
  moreover have "\<forall>q. Count (site_mem st' q) = Count (site_mem st q)"
    using broadcast_loop_site_fields[OF r] by simp
  moreover have "\<forall>q. q \<noteq> r \<longrightarrow> site_mem st' q = site_mem st q"
    using broadcast_loop_other_sites[OF r] by simp
  moreover have "sites st' = sites st"
    using broadcast_loop_frame[OF r] by simp
  ultimately show "\<exists>st'. broadcastToSite now k n st = Inr st' \<and>
         Connections (site_mem st' r) = ffilter (has_room st) (Connections (site_mem st r)) \<and>
         (\<forall>x. x |\<in>| Connections (site_mem st r) \<longrightarrow>
            send (client_mem st' x) =
              (if has_room st x
               then (send (client_mem st x))\<lparr>buf := buf (send (client_mem st x)) @
                      [update_message k n now]\<rparr>
               else (send (client_mem st x))\<lparr>is_closed := True\<rparr>)) \<and>
         (\<forall>x. x |\<notin>| Connections (site_mem st r) \<longrightarrow> client_mem st' x = client_mem st x) \<and>
         (\<forall>q. Count (site_mem st' q) = Count (site_mem st q)) \<and>
         (\<forall>q. q \<noteq> r \<longrightarrow> site_mem st' q = site_mem st q) \<and>
         sites st' = sites st"
    unfolding eq using r by (intro exI[of _ st']) (simp add: m_def)
qed

theorem broadcastToSite_effect_witness:
  "sites pair_state ''blog'' = Some 0 \<and> sites pair_state ''shop'' = None \<and>
   broadcastToSite 100 ''shop'' 7 pair_state = Inr pair_state \<and>
   (\<exists>st'. broadcastToSite 100 ''blog'' 2 pair_state = Inr st' \<and>
      Count (site_mem st' 0) = 2 \<and>
      send (client_mem st' 2) = \<lparr>buf = [update_message ''blog'' 2 100], is_closed = False\<rparr> \<and>
      is_closed (send (client_mem st' 1))) \<and>
   broadcastToSite 100 ''A'' 1
     (upd_client 1 (\<lambda>x. x\<lparr>send := \<lparr>buf = [], is_closed = True\<rparr>\<rparr>) solo_state)
     = Inl SendOnClosedChannel"
proof -
  have vals: "sites pair_state ''blog'' = Some 0" "sites pair_state ''shop'' = None"
    "Count (site_mem pair_state 0) = 2"
    "has_room pair_state 2" "\<not> has_room pair_state 1"
    "send (client_mem pair_state 2) = \<lparr>buf = [], is_closed = False\<rparr>"
    "1 |\<in>| Connections (site_mem pair_state 0)" "2 |\<in>| Connections (site_mem pair_state 0)"
    by (simp_all add: pair_state_def client_at_def has_room_def chan_cap_def)
  have op: "\<forall>x. x |\<in>| Connections (site_mem pair_state 0) \<longrightarrow>
      \<not> is_closed (send (client_mem pair_state x))"
    by (auto simp: pair_state_def client_at_def)
  from broadcastToSite_effect[of pair_state "''blog''" 100 2] vals(1) op
  obtain st' where st': "broadcastToSite 100 ''blog'' 2 pair_state = Inr st'"
    "\<forall>x. x |\<in>| Connections (site_mem pair_state 0) \<longrightarrow>
            send (client_mem st' x) =
              (if has_room pair_state x
               then (send (client_mem pair_state x))\<lparr>buf := buf (send (client_mem pair_state x)) @
                      [update_message ''blog'' 2 100]\<rparr>
               else (send (client_mem pair_state x))\<lparr>is_closed := True\<rparr>)"
    "\<forall>q. Count (site_mem st' q) = Count (site_mem pair_state q)"
    by blast
  from st'(2) vals have
    "send (client_mem st' 2) = \<lparr>buf = [update_message ''blog'' 2 100], is_closed = False\<rparr>"
    "is_closed (send (client_mem st' 1))"
    by simp_all
  moreover have "broadcastToSite 100 ''shop'' 7 pair_state = Inr pair_state"
    using broadcastToSite_effect[of pair_state "''shop''" 100 7] vals(2) by blast
  moreover have "broadcastToSite 100 ''A'' 1
     (upd_client 1 (\<lambda>x. x\<lparr>send := \<lparr>buf = [], is_closed = True\<rparr>\<rparr>) solo_state)
     = Inl SendOnClosedChannel"
  proof -
    define S where "S = upd_client 1 (\<lambda>x. x\<lparr>send := \<lparr>buf = [], is_closed = True\<rparr>\<rparr>) solo_state"
    have "sites S ''A'' = Some 0 \<and>
        (\<exists>x. x |\<in>| Connections (site_mem S 0) \<and> is_closed (send (client_mem S x)))"
      by (auto simp: S_def solo_state_def upd_client_def)
    with broadcastToSite_effect[of S "''A''" 100 1]
    show ?thesis unfolding S_def by blast
  qed
  ultimately show ?thesis
    using st'(1,3) vals by simp
qed

subsection \<open>The count never falls below the number of members\<close>

text \<open>
  While no counter is at the largest \<^verbatim>\<open>int\<close>, every hub operation that returns, and
  \<^verbatim>\<open>getSite\<close>, keeps \<open>counted\<close>: the \<^verbatim>\<open>Count\<close> of a site is at least the number of its
  \<^verbatim>\<open>Connections\<close>, so it is never negative. (The two can differ: a broadcast that sheds a
  member leaves the count as it is.)
\<close>

theorem counted_preserved:
  assumes inv: "counted st" and rng: "\<forall>q. Count (site_mem st q) < 2 ^ 63 - 1"
  shows "(\<forall>st'. handleRegister now c st = Inr st' \<longrightarrow> counted st') \<and>
         (\<forall>st'. handleUnregister now c st = Inr st' \<longrightarrow> counted st') \<and>
         (\<forall>st'. broadcastToSite now k n st = Inr st' \<longrightarrow> counted st') \<and>
         counted (snd (getSite k st))"
proof (intro conjI allI impI)
  fix st'
  assume res: "handleRegister now c st = Inr st'"
  show "counted st'"
  proof (cases "site (client_mem st c)")
    case None
    with res inv show ?thesis by (simp add: handleRegister_def)
  next
    case (Some r)
    from handleRegister_unfold[OF Some, of now] obtain st2 where
      sm: "site_mem st2 = (site_mem st)
             (r := (site_mem st r)\<lparr>Connections := finsert c (Connections (site_mem st r)),
                     Count := int_wrap (Count (site_mem st r) + 1)\<rparr>)"
      and eq: "handleRegister now c st =
             broadcastToSite now (ID (site_mem st r)) (int_wrap (Count (site_mem st r) + 1)) st2"
      by blast
    have le: "int (fcard (Connections (site_mem st r))) \<le> Count (site_mem st r)"
      using inv by (simp add: counted_def)
    moreover have "Count (site_mem st r) < 2 ^ 63 - 1"
      using rng by blast
    ultimately have w: "int_wrap (Count (site_mem st r) + 1) = Count (site_mem st r) + 1"
      by (intro int_wrap_id) auto
    have ins: "fcard (finsert c (Connections (site_mem st r)))
        \<le> Suc (fcard (Connections (site_mem st r)))"
      by (simp add: fcard_finsert_if)
    have "counted st2"
      unfolding counted_def
    proof
      fix q
      show "int (fcard (Connections (site_mem st2 q))) \<le> Count (site_mem st2 q)"
      proof (cases "q = r")
        case True
        have "int (fcard (finsert c (Connections (site_mem st r)))) \<le> Count (site_mem st r) + 1"
          using le ins by linarith
        with True show ?thesis by (simp add: sm w)
      next
        case False
        with inv show ?thesis by (simp add: counted_def sm)
      qed
    qed
    with res eq show ?thesis by (auto intro: broadcastToSite_counted)
  qed
next
  fix st'
  assume res: "handleUnregister now c st = Inr st'"
  show "counted st'"
  proof (cases "site (client_mem st c)")
    case None
    with res inv show ?thesis by (simp add: handleUnregister_def)
  next
    case (Some r)
    show ?thesis
    proof (cases "c |\<in>| Connections (site_mem st r)")
      case False
      with res Some inv show ?thesis by (simp add: handleUnregister_def)
    next
      case True
      from handleUnregister_unfold[OF Some True handleUnregister_member_open[OF res Some True],
          of now]
      obtain st4 where
        sm: "site_mem st4 = (site_mem st)
             (r := (site_mem st r)\<lparr>Connections := Connections (site_mem st r) |-| {|c|},
                     Count := (if int_wrap (Count (site_mem st r) - 1) < 0 then 0
                               else int_wrap (Count (site_mem st r) - 1))\<rparr>)"
        and eq: "handleUnregister now c st =
             (if fcard (Connections (site_mem st4 r)) = 0
              then Inr (st4\<lparr>sites := (sites st4)(ID (site_mem st4 r) := None)\<rparr>)
              else broadcastToSite now (ID (site_mem st4 r)) (Count (site_mem st4 r)) st4)"
        by blast
      have le: "int (fcard (Connections (site_mem st r))) \<le> Count (site_mem st r)"
        using inv by (simp add: counted_def)
      have card: "Suc (fcard (Connections (site_mem st r) |-| {|c|})) =
          fcard (Connections (site_mem st r))"
        using True by (rule fcard_Suc_fminus1)
      with le have pos: "1 \<le> Count (site_mem st r)" by linarith
      moreover have "Count (site_mem st r) < 2 ^ 63 - 1"
        using rng by blast
      ultimately have w: "int_wrap (Count (site_mem st r) - 1) = Count (site_mem st r) - 1"
        by (intro int_wrap_id) auto
      have c4: "counted st4"
        unfolding counted_def
      proof
        fix q
        show "int (fcard (Connections (site_mem st4 q))) \<le> Count (site_mem st4 q)"
        proof (cases "q = r")
          case True
          have "int (fcard (Connections (site_mem st r) |-| {|c|})) \<le> Count (site_mem st r) - 1"
            using le card by linarith
          with True pos show ?thesis by (simp add: sm w)
        next
          case False
          with inv show ?thesis by (simp add: counted_def sm)
        qed
      qed
      show ?thesis
      proof (cases "fcard (Connections (site_mem st4 r)) = 0")
        case True
        with res eq have "st' = st4\<lparr>sites := (sites st4)(ID (site_mem st4 r) := None)\<rparr>"
          by simp
        with c4 show ?thesis by (simp add: counted_def)
      next
        case False
        with res eq c4 show ?thesis by (auto intro: broadcastToSite_counted)
      qed
    qed
  qed
next
  fix st'
  assume "broadcastToSite now k n st = Inr st'"
  then show "counted st'" using inv by (rule broadcastToSite_counted)
next
  show "counted (snd (getSite k st))"
    using inv by (auto simp: counted_def getSite_def Let_def split: option.splits)
qed

theorem counted_preserved_witness:
  "counted blog_state \<and> (\<forall>q. Count (site_mem blog_state q) < 2 ^ 63 - 1) \<and>
   (\<exists>st'. handleRegister 100 4 blog_state = Inr st' \<and> counted st') \<and>
   (\<exists>st'. handleUnregister 100 3 blog_state = Inr st' \<and> counted st') \<and>
   (\<exists>st'. broadcastToSite 100 ''blog'' 3 blog_state = Inr st' \<and> counted st') \<and>
   counted (snd (getSite ''shop'' blog_state))"
proof -
  have 1: "counted blog_state"
    by (simp add: counted_def blog_state_def no_site_def fcard_finsert_if)
  have 2: "\<forall>q. Count (site_mem blog_state q) < 2 ^ 63 - 1"
    by (simp add: blog_state_def no_site_def)
  obtain s1 where s1: "handleRegister 100 4 blog_state = Inr s1"
    by (simp add: run_simps blog_state_def)
  obtain s2 where s2: "handleUnregister 100 3 blog_state = Inr s2"
    by (simp add: run_simps blog_state_def)
  obtain s3 where s3: "broadcastToSite 100 ''blog'' 3 blog_state = Inr s3"
    by (simp add: run_simps blog_state_def)
  from counted_preserved[OF 1 2, of 100 4 "''blog''" 3] s1 s3
  have "counted s1" "counted s3" by blast+
  moreover from counted_preserved[OF 1 2, of 100 3 "''shop''" 3] s2
  have "counted s2" "counted (snd (getSite ''shop'' blog_state))" by blast+
  ultimately show ?thesis using 1 2 s1 s2 s3 by simp
qed

subsection \<open>Every update the hub sends carries a count\<close>

text \<open>
  In a state that satisfies \<open>counted\<close>, with no counter at the largest \<^verbatim>\<open>int\<close>, an attach
  or a detach that returns leaves every queue as it was or appends one update to it; the
  count of that update is at least 1, so its frame has the \<^verbatim>\<open>count\<close> member.
\<close>

theorem hub_updates_carry_count:
  assumes inv: "counted st" and rng: "\<forall>q. Count (site_mem st q) < 2 ^ 63 - 1"
    and res: "handleRegister now c st = Inr st' \<or> handleUnregister now c st = Inr st'"
  shows "buf (send (client_mem st' x)) = buf (send (client_mem st x)) \<or>
         (\<exists>m. buf (send (client_mem st' x)) = buf (send (client_mem st x)) @ [m] \<and>
              Type m = ''update'' \<and> 1 \<le> MCount m \<and>
              map_of (marshal_Message m) ''count'' = Some (JNumber (MCount m)))"
proof -
  have frame: "map_of (marshal_Message (update_message k n now)) ''count'' =
      Some (JNumber (MCount (update_message k n now)))" if "1 \<le> n" for k n
    using that by (simp add: marshal_Message_def update_message_def)
  have upd: "Type (update_message k n now) = ''update''" "MCount (update_message k n now) = n"
    for k n
    by (simp_all add: update_message_def)
  from res show ?thesis
  proof
    assume r: "handleRegister now c st = Inr st'"
    show ?thesis
    proof (cases "site (client_mem st c)")
      case None
      with r show ?thesis by (simp add: handleRegister_def)
    next
      case (Some r')
      from handleRegister_unfold[OF Some, of now] obtain st2 where
        cm: "client_mem st2 = client_mem st"
        and eq: "handleRegister now c st =
             broadcastToSite now (ID (site_mem st r')) (int_wrap (Count (site_mem st r') + 1)) st2"
        by blast
      have le: "int (fcard (Connections (site_mem st r'))) \<le> Count (site_mem st r')"
        using inv by (simp add: counted_def)
      moreover have "Count (site_mem st r') < 2 ^ 63 - 1"
        using rng by blast
      ultimately have w: "int_wrap (Count (site_mem st r') + 1) = Count (site_mem st r') + 1"
        by (intro int_wrap_id) auto
      have n: "1 \<le> int_wrap (Count (site_mem st r') + 1)"
        using le w by linarith
      from r eq have "broadcastToSite now (ID (site_mem st r'))
          (int_wrap (Count (site_mem st r') + 1)) st2 = Inr st'" by simp
      from broadcastToSite_bufs[OF this, of x] n show ?thesis
        by (auto simp: cm upd frame)
    qed
  next
    assume r: "handleUnregister now c st = Inr st'"
    show ?thesis
    proof (cases "site (client_mem st c)")
      case None
      with r show ?thesis by (simp add: handleUnregister_def)
    next
      case (Some r')
      show ?thesis
      proof (cases "c |\<in>| Connections (site_mem st r')")
        case False
        with r Some show ?thesis by (simp add: handleUnregister_def)
      next
        case True
        from handleUnregister_unfold[OF Some True handleUnregister_member_open[OF r Some True],
            of now]
        obtain st4 where
          cm: "client_mem st4 = (client_mem st)
             (c := (client_mem st c)\<lparr>send := (send (client_mem st c))\<lparr>is_closed := True\<rparr>\<rparr>)"
          and sm: "site_mem st4 = (site_mem st)
             (r' := (site_mem st r')\<lparr>Connections := Connections (site_mem st r') |-| {|c|},
                     Count := (if int_wrap (Count (site_mem st r') - 1) < 0 then 0
                               else int_wrap (Count (site_mem st r') - 1))\<rparr>)"
          and eq: "handleUnregister now c st =
             (if fcard (Connections (site_mem st4 r')) = 0
              then Inr (st4\<lparr>sites := (sites st4)(ID (site_mem st4 r') := None)\<rparr>)
              else broadcastToSite now (ID (site_mem st4 r')) (Count (site_mem st4 r')) st4)"
          by blast
        have bufs: "buf (send (client_mem st4 x)) = buf (send (client_mem st x))"
          by (simp add: cm)
        show ?thesis
        proof (cases "fcard (Connections (site_mem st4 r')) = 0")
          case True
          with r eq have "st' = st4\<lparr>sites := (sites st4)(ID (site_mem st4 r') := None)\<rparr>"
            by simp
          with bufs show ?thesis by simp
        next
          case False
          have le: "int (fcard (Connections (site_mem st r'))) \<le> Count (site_mem st r')"
            using inv by (simp add: counted_def)
          have card: "Suc (fcard (Connections (site_mem st r') |-| {|c|})) =
              fcard (Connections (site_mem st r'))"
            using True by (rule fcard_Suc_fminus1)
          have conn4: "Connections (site_mem st4 r') = Connections (site_mem st r') |-| {|c|}"
            by (simp add: sm)
          from False[unfolded conn4]
          have "1 \<le> fcard (Connections (site_mem st r') |-| {|c|})"
            by linarith
          with le card have two: "2 \<le> Count (site_mem st r')" by linarith
          moreover have "Count (site_mem st r') < 2 ^ 63 - 1"
            using rng by blast
          ultimately have w: "int_wrap (Count (site_mem st r') - 1) = Count (site_mem st r') - 1"
            by (intro int_wrap_id) auto
          have n: "1 \<le> Count (site_mem st4 r')"
            using two by (simp add: sm w)
          from r eq False have "broadcastToSite now (ID (site_mem st4 r'))
              (Count (site_mem st4 r')) st4 = Inr st'" by simp
          from broadcastToSite_bufs[OF this, of x] n bufs show ?thesis
            by (auto simp: upd frame)
        qed
      qed
    qed
  qed
qed

theorem hub_updates_carry_count_witness:
  "counted blog_state \<and> (\<forall>q. Count (site_mem blog_state q) < 2 ^ 63 - 1) \<and>
   (\<exists>st'. handleRegister 100 4 blog_state = Inr st' \<and>
      (\<exists>m. buf (send (client_mem st' 2)) = buf (send (client_mem blog_state 2)) @ [m] \<and>
           Type m = ''update'' \<and> 1 \<le> MCount m \<and>
           map_of (marshal_Message m) ''count'' = Some (JNumber (MCount m))))"
proof -
  have 1: "counted blog_state"
    by (simp add: counted_def blog_state_def no_site_def fcard_finsert_if)
  have 2: "\<forall>q. Count (site_mem blog_state q) < 2 ^ 63 - 1"
    by (simp add: blog_state_def no_site_def)
  obtain s1 where s1: "handleRegister 100 4 blog_state = Inr s1"
    and b: "buf (send (client_mem s1 2)) \<noteq> buf (send (client_mem blog_state 2))"
    by (simp add: run_simps blog_state_def)
  from hub_updates_carry_count[OF 1 2, of 100 4 s1 2] s1 b
  have "\<exists>m. buf (send (client_mem s1 2)) = buf (send (client_mem blog_state 2)) @ [m] \<and>
           Type m = ''update'' \<and> 1 \<le> MCount m \<and>
           map_of (marshal_Message m) ''count'' = Some (JNumber (MCount m))"
    by blast
  with 1 2 s1 show ?thesis by blast
qed

subsection \<open>The order of the range\<close>

text \<open>
  Go leaves the order in which \<^verbatim>\<open>range\<close> visits the keys of a map open. The loop of
  \<^verbatim>\<open>broadcastToSite\<close> gives the same result, state or panic, for every order of the same
  keys.
\<close>

theorem broadcast_loop_any_order:
  assumes "distinct cs" "distinct cs'" "set cs = set cs'"
  shows "broadcast_loop m r cs st = broadcast_loop m r cs' st"
proof (cases "\<exists>c\<in>set cs. is_closed (send (client_mem st c))")
  case True
  with assms show ?thesis by (simp add: broadcast_loop_panics)
next
  case False
  with assms obtain st1 st2 where
    1: "broadcast_loop m r cs st = Inr st1" and 2: "broadcast_loop m r cs' st = Inr st2"
    using broadcast_loop_returns[of cs st m r] broadcast_loop_returns[of cs' st m r] by auto
  have fs: "fset_of_list cs = fset_of_list cs'"
    using assms(3) by (auto simp: fset_of_list.rep_eq)
  have "site_mem st1 q = site_mem st2 q" for q
  proof (cases "q = r")
    case True
    have "Connections (site_mem st1 r) = Connections (site_mem st2 r)"
      using broadcast_loop_Connections[OF 1 assms(1)] broadcast_loop_Connections[OF 2 assms(2)] fs
      by simp
    with True show ?thesis
      using broadcast_loop_site_fields[OF 1, of r] broadcast_loop_site_fields[OF 2, of r]
      by (intro Site.equality) auto
  next
    case False
    then show ?thesis
      using broadcast_loop_other_sites[OF 1] broadcast_loop_other_sites[OF 2] by simp
  qed
  then have sm: "site_mem st1 = site_mem st2" by (rule ext)
  have "client_mem st1 c = client_mem st2 c" for c
  proof (cases "c \<in> set cs")
    case True
    then have "send (client_mem st1 c) = send (client_mem st2 c)"
      using broadcast_loop_send[OF 1 assms(1)] broadcast_loop_send[OF 2 assms(2)] assms(3)
      by simp
    then show ?thesis
      using broadcast_loop_client_fields[OF 1, of c] broadcast_loop_client_fields[OF 2, of c]
      by (intro Client.equality) auto
  next
    case False
    then show ?thesis
      using broadcast_loop_untouched[OF 1] broadcast_loop_untouched[OF 2] assms(3) by simp
  qed
  then have cm: "client_mem st1 = client_mem st2" by (rule ext)
  have "st1 = st2"
    using sm cm broadcast_loop_frame[OF 1] broadcast_loop_frame[OF 2]
    by (intro state.equality) auto
  with 1 2 show ?thesis by simp
qed

text \<open>The broadcast loop over the members 1, 2, 3 of \<open>blog_state\<close> in two orders.\<close>

theorem broadcast_loop_any_order_witness:
  "distinct [1, 2, 3 :: nat] \<and> distinct [3, 1, 2 :: nat] \<and> set [1, 2, 3 :: nat] = set [3, 1, 2] \<and>
   broadcast_loop (update_message ''blog'' 3 100) 0 [1, 2, 3] blog_state =
   broadcast_loop (update_message ''blog'' 3 100) 0 [3, 1, 2] blog_state"
proof -
  have "distinct [1, 2, 3 :: nat]" "distinct [3, 1, 2 :: nat]" "set [1, 2, 3 :: nat] = set [3, 1, 2]"
    by auto
  then show ?thesis
    using broadcast_loop_any_order[of "[1, 2, 3]" "[3, 1, 2]" "update_message ''blog'' 3 100" 0 blog_state]
    by blast
qed

end
